theory Spec2Isabelle
  imports Main "HOL-Library.Sublist"
begin

section \<open>The Graylog provider of Keep\<close>

text \<open>
  A shallow embedding of \<^verbatim>\<open>keep/providers/graylog_provider/graylog_provider.py\<close>.
  Python exceptions are values of \<open>error\<close>, a function that may raise returns
  \<open>error + 'a\<close>. Dictionaries read from JSON are records whose optional keys are
  \<open>option\<close> fields, so that a subscript on a missing key is a \<open>KeyError\<close> branch.
  A Python name with one leading underscore is written with the prefix \<open>prot_\<close>, a name
  with two leading underscores with the prefix \<open>priv_\<close>.
\<close>

subsection \<open>Exceptions and Python built-ins\<close>

datatype error =
    KeyError string
  | IndexError
  | ValueError
  | AttributeError
  | StopIteration
  | HttpFailure string \<comment> \<open>\<^verbatim>\<open>raise Exception(response.text)\<close>\<close>
  | HTTPError int \<comment> \<open>raised by \<^verbatim>\<open>response.raise_for_status()\<close>, for the status code of the response\<close>
  | ConnectionFailed string \<comment> \<open>an exception raised by \<^verbatim>\<open>requests\<close> itself\<close>

definition and_then :: "error + 'a \<Rightarrow> ('a \<Rightarrow> error + 'b) \<Rightarrow> error + 'b" where
  "and_then r k = (case r of Inl e \<Rightarrow> Inl e | Inr v \<Rightarrow> k v)"

definition subscript :: "string \<Rightarrow> 'a option \<Rightarrow> error + 'a" where
  \<comment> \<open>\<^verbatim>\<open>d[key]\<close> on a dictionary\<close>
  "subscript key field = (case field of None \<Rightarrow> Inl (KeyError key) | Some v \<Rightarrow> Inr v)"

definition get_or :: "'a option \<Rightarrow> 'a \<Rightarrow> 'a" where
  \<comment> \<open>\<^verbatim>\<open>d.get(key, default)\<close>\<close>
  "get_or field dflt = (case field of None \<Rightarrow> dflt | Some v \<Rightarrow> v)"

definition list_index :: "'a list \<Rightarrow> int \<Rightarrow> error + 'a" where
  \<comment> \<open>\<^verbatim>\<open>xs[i]\<close>: an index below zero counts from the end of the list\<close>
  "list_index xs i =
     (if 0 \<le> i \<and> i < int (length xs) then Inr (xs ! nat i)
      else if i < 0 \<and> - int (length xs) \<le> i then Inr (xs ! nat (int (length xs) + i))
      else Inl IndexError)"

definition truthy :: "string option \<Rightarrow> bool" where
  \<comment> \<open>the truth value of a value that is \<^verbatim>\<open>None\<close> or a \<^verbatim>\<open>str\<close>\<close>
  "truthy v = (case v of None \<Rightarrow> False | Some s \<Rightarrow> s \<noteq> [])"

definition py_or :: "string option \<Rightarrow> string option \<Rightarrow> string option" where
  \<comment> \<open>\<^verbatim>\<open>a or b\<close>\<close>
  "py_or a b = (if truthy a then a else b)"

definition startswith :: "string \<Rightarrow> string \<Rightarrow> bool" where
  "startswith s p = prefix p s"

definition rstrip :: "(char \<Rightarrow> bool) \<Rightarrow> string \<Rightarrow> string" where
  \<comment> \<open>\<^verbatim>\<open>s.rstrip(chars)\<close>: the characters to strip are those that satisfy the predicate\<close>
  "rstrip P s = rev (dropWhile P (rev s))"

definition strip :: "(char \<Rightarrow> bool) \<Rightarrow> string \<Rightarrow> string" where
  "strip P s = dropWhile P (rstrip P s)"

definition is_slash :: "char \<Rightarrow> bool" where
  "is_slash c = (c = CHR ''/'')"

definition is_space :: "char \<Rightarrow> bool" where
  \<comment> \<open>the ASCII characters for which \<^verbatim>\<open>str.isspace\<close> holds\<close>
  "is_space c = (let n = (of_char c :: nat) in (9 \<le> n \<and> n \<le> 13) \<or> (28 \<le> n \<and> n \<le> 32))"

fun join_with :: "string \<Rightarrow> string list \<Rightarrow> string" where
  \<comment> \<open>\<^verbatim>\<open>sep.join(parts)\<close>\<close>
  "join_with sep [] = []"
| "join_with sep [x] = x"
| "join_with sep (x # y # ys) = x @ sep @ join_with sep (y # ys)"

subsection \<open>The canonical alert\<close>

text \<open>
  Modelled from the spec: the enumerations \<^verbatim>\<open>AlertSeverity\<close> and \<^verbatim>\<open>AlertStatus\<close> and the
  model \<^verbatim>\<open>AlertDto\<close> of \<^verbatim>\<open>keep/api/models/alert.py\<close>, which is not among the sources. The
  spec's data model names the severities LOW, WARNING and HIGH, the status FIRING and the
  fields of the canonical alert; only these are modelled.
\<close>

datatype AlertSeverity = LOW | WARNING | HIGH

datatype AlertStatus = FIRING

record AlertDto =
  a_id :: string
  a_name :: string
  a_severity :: AlertSeverity
  a_description :: "string option"
  a_event_definition_id :: string
  a_origin_context :: "string option"
  a_status :: AlertStatus
  a_lastReceived :: string
  a_message :: "string option"
  a_source :: "string list"
  a_fingerprint :: "string option"

definition alert_field :: "AlertDto \<Rightarrow> string \<Rightarrow> string option" where
  \<comment> \<open>the value of a field of the alert, by the field's name\<close>
  "alert_field a f =
     (if f = ''id'' then Some (a_id a)
      else if f = ''name'' then Some (a_name a)
      else if f = ''description'' then a_description a
      else if f = ''event_definition_id'' then Some (a_event_definition_id a)
      else if f = ''origin_context'' then a_origin_context a
      else if f = ''lastReceived'' then Some (a_lastReceived a)
      else if f = ''message'' then a_message a
      else None)"

text \<open>
  Modelled from the spec: \<^verbatim>\<open>BaseProvider.get_alert_fingerprint\<close> of
  \<^verbatim>\<open>keep/providers/base/base_provider.py\<close>, which is not among the sources. The spec calls
  it a stable hash or identity function over the values of the configured fingerprint
  fields; the hash itself is the parameter \<open>H\<close>.
\<close>

definition get_alert_fingerprint ::
  "(string option list \<Rightarrow> string) \<Rightarrow> AlertDto \<Rightarrow> string list \<Rightarrow> string" where
  "get_alert_fingerprint H alert fingerprint_fields = H (map (alert_field alert) fingerprint_fields)"

definition FINGERPRINT_FIELDS :: "string list" where
  "FINGERPRINT_FIELDS = [''id'']"

subsection \<open>Mapping a raw event to an alert\<close>

record raw_event_body = \<comment> \<open>the dictionary under the key \<^verbatim>\<open>event\<close>\<close>
  e_id :: "string option"
  e_message :: "string option"
  e_priority :: "int option"
  e_event_definition_id :: "string option"
  e_origin_context :: "string option"
  e_timestamp :: "string option"

record raw_event =
  event :: "raw_event_body option"
  event_definition_title :: "string option"
  event_definition_description :: "string option"

text \<open>
  \<^verbatim>\<open>__map_event_to_alert\<close>. The keyword arguments of \<^verbatim>\<open>AlertDto(...)\<close> are evaluated in
  the order they are written, so the first missing key decides the exception. The
  default of \<^verbatim>\<open>event.get("event_definition_title", event["event"]["message"])\<close> is
  evaluated before the call, whether the title is there or not. The parameter
  \<open>fromisoformat\<close> stands for the standard library's
  \<^verbatim>\<open>datetime.fromisoformat(s).replace(tzinfo=timezone.utc).isoformat()\<close>, \<open>None\<close> where it
  raises \<^verbatim>\<open>ValueError\<close>.
\<close>

definition priv_map_event_to_alert ::
  "(string \<Rightarrow> string option) \<Rightarrow> (string option list \<Rightarrow> string) \<Rightarrow> raw_event \<Rightarrow> error + AlertDto" where
  "priv_map_event_to_alert fromisoformat H ev =
     and_then (subscript ''event'' (event ev)) (\<lambda>body.
     and_then (subscript ''id'' (e_id body)) (\<lambda>ident.
     and_then (subscript ''message'' (e_message body)) (\<lambda>msg.
     and_then (subscript ''priority'' (e_priority body)) (\<lambda>priority.
     and_then (list_index [LOW, WARNING, HIGH] (priority - 1)) (\<lambda>sev.
     and_then (subscript ''event_definition_id'' (e_event_definition_id body)) (\<lambda>def_id.
     and_then (subscript ''timestamp'' (e_timestamp body)) (\<lambda>ts.
     and_then (case fromisoformat (filter (\<lambda>c. c \<noteq> CHR ''z'') ts) of
                 None \<Rightarrow> Inl ValueError | Some t \<Rightarrow> Inr t) (\<lambda>last_received.
       let alert = \<lparr> a_id = ident,
                     a_name = get_or (event_definition_title ev) msg,
                     a_severity = sev,
                     a_description = event_definition_description ev,
                     a_event_definition_id = def_id,
                     a_origin_context = e_origin_context body,
                     a_status = FIRING,
                     a_lastReceived = last_received,
                     a_message = e_message body,
                     a_source = [''graylog''],
                     a_fingerprint = None \<rparr>
       in Inr (alert \<lparr> a_fingerprint :=
                 Some (get_alert_fingerprint H alert FINGERPRINT_FIELDS) \<rparr>)))))))))"

definition prot_format_alert ::
  "(string \<Rightarrow> string option) \<Rightarrow> (string option list \<Rightarrow> string) \<Rightarrow> raw_event \<Rightarrow> error + AlertDto" where
  "prot_format_alert fromisoformat H ev = priv_map_event_to_alert fromisoformat H ev"

subsection \<open>Requests and their effects\<close>

text \<open>
  A method that talks to the backend is a function of a state \<open>'s\<close> (the requests issued
  so far, or the backend itself) that returns its result, or the exception it raised,
  with the state it leaves.
\<close>

type_synonym ('s, 'a) prog = "'s \<Rightarrow> (error + 'a) \<times> 's"

definition ret :: "'a \<Rightarrow> ('s, 'a) prog" where
  "ret v s = (Inr v, s)"

definition lift :: "error + 'a \<Rightarrow> ('s, 'a) prog" where
  "lift r s = (r, s)"

definition then_do :: "('s, 'a) prog \<Rightarrow> ('a \<Rightarrow> ('s, 'b) prog) \<Rightarrow> ('s, 'b) prog" where
  "then_do m k s = (case m s of (Inl e, s') \<Rightarrow> (Inl e, s') | (Inr v, s') \<Rightarrow> k v s')"

fun map_all :: "('a \<Rightarrow> error + 'b) \<Rightarrow> 'a list \<Rightarrow> error + 'b list" where
  \<comment> \<open>a list comprehension \<^verbatim>\<open>[f(x) for x in xs]\<close>: the first exception ends it\<close>
  "map_all f [] = Inr []"
| "map_all f (x # xs) = and_then (f x) (\<lambda>y. and_then (map_all f xs) (\<lambda>ys. Inr (y # ys)))"

text \<open>
  What \<^verbatim>\<open>requests\<close> gives back: a response with its status code, its text and its JSON
  body, or an exception of the library's own.
\<close>

datatype 'a reply = Reply int string 'a | Raised string

subsection \<open>The alert search\<close>

record search_parameters = \<comment> \<open>the dictionary \<^verbatim>\<open>json_data\<close> or \<^verbatim>\<open>events_search_parameters\<close>, and \<^verbatim>\<open>kwargs\<close>\<close>
  sp_query :: "string option"
  sp_query_type :: "string option"
  sp_timerange_seconds :: "int option"
  sp_timerange_type :: "string option"
  sp_page :: "int option"
  sp_per_page :: "int option"
  sp_filter_alerts :: "string option" \<comment> \<open>\<^verbatim>\<open>"filter": {"alerts": ...}\<close>\<close>
  sp_timerange :: "(int \<times> string) option" \<comment> \<open>\<^verbatim>\<open>"timerange": {"range": ..., "type": ...}\<close>\<close>

record events_page = \<comment> \<open>the JSON body of a response of \<^verbatim>\<open>events/search\<close>\<close>
  events :: "raw_event list option"
  total_events :: "int option"

record search_body = \<comment> \<open>the parts of \<^verbatim>\<open>search_body\<close> that vary\<close>
  sb_query_id :: string
  sb_query_type :: string
  sb_query_string :: string
  sb_timerange_from :: int
  sb_timerange_type :: string
  sb_search_type_id :: string
  sb_limit :: int
  sb_offset :: int

record search_type_result =
  st_messages :: "string list option"

record query_result =
  qr_search_types :: "(string \<times> search_type_result) list option"

record sync_result = \<comment> \<open>the JSON body of a response of \<^verbatim>\<open>views/search/sync\<close>\<close>
  sr_results :: "(string \<times> query_result) list option"

datatype request =
    Post_views_search_sync search_body
  | Post_events_search search_parameters

text \<open>
  \<^verbatim>\<open>__get_alerts\<close>: the log line reads \<^verbatim>\<open>json_data['page']\<close> and
  \<^verbatim>\<open>json_data['per_page']\<close> inside the \<^verbatim>\<open>try\<close> block, before the request is sent; every
  exception is logged and raised again.
\<close>

definition priv_get_alerts ::
  "(search_parameters \<Rightarrow> events_page reply) \<Rightarrow> search_parameters \<Rightarrow> (request list, events_page) prog" where
  "priv_get_alerts post json_data =
     then_do (lift (subscript ''page'' (sp_page json_data))) (\<lambda>_.
     then_do (lift (subscript ''per_page'' (sp_per_page json_data))) (\<lambda>_.
     (\<lambda>log. case post json_data of
        Raised msg \<Rightarrow> (Inl (ConnectionFailed msg), log @ [Post_events_search json_data])
      | Reply status_code body js \<Rightarrow>
          (if status_code \<noteq> 200 then Inl (HttpFailure body) else Inr js,
           log @ [Post_events_search json_data]))))"

definition ceil_div :: "int \<Rightarrow> int \<Rightarrow> int" where
  \<comment> \<open>\<^verbatim>\<open>math.ceil(a / b)\<close> for a positive \<open>b\<close>, on the exact quotient\<close>
  "ceil_div a b = - ((- a) div b)"

fun fetch_pages ::
  "(search_parameters \<Rightarrow> events_page reply) \<Rightarrow> search_parameters \<Rightarrow> int list \<Rightarrow> raw_event list \<Rightarrow>
     (request list, raw_event list) prog" where
  \<comment> \<open>the loop \<^verbatim>\<open>for page in range(2, total_events + 1)\<close> of \<^verbatim>\<open>_get_alerts\<close>\<close>
  "fetch_pages post json_data [] all_alerts = ret all_alerts"
| "fetch_pages post json_data (page # pages) all_alerts =
     then_do (priv_get_alerts post (json_data \<lparr> sp_page := Some page \<rparr>)) (\<lambda>alerts.
     then_do (lift (subscript ''events'' (events alerts))) (\<lambda>evs.
       fetch_pages post (json_data \<lparr> sp_page := Some page \<rparr>) pages (all_alerts @ evs)))"

definition alerts_json_data :: search_parameters where
  "alerts_json_data =
     \<lparr> sp_query = Some [], sp_query_type = None, sp_timerange_seconds = None,
       sp_timerange_type = None, sp_page = Some 1, sp_per_page = Some 1000,
       sp_filter_alerts = Some ''only'', sp_timerange = Some (1 * 24 * 60 * 60, ''relative'') \<rparr>"

definition prot_get_alerts ::
  "(string \<Rightarrow> string option) \<Rightarrow> (string option list \<Rightarrow> string) \<Rightarrow>
   (search_parameters \<Rightarrow> events_page reply) \<Rightarrow> (request list, AlertDto list) prog" where
  "prot_get_alerts fromisoformat H post =
     then_do (priv_get_alerts post alerts_json_data) (\<lambda>alerts_1.
     then_do (lift (subscript ''events'' (events alerts_1))) (\<lambda>evs_1.
     then_do (lift (subscript ''total_events'' (total_events alerts_1))) (\<lambda>total.
     then_do (fetch_pages post alerts_json_data [2 .. max 10 (ceil_div total 1000)] evs_1) (\<lambda>all_alerts.
       lift (map_all (priv_map_event_to_alert fromisoformat H) all_alerts)))))"

subsection \<open>The log search and the generic query\<close>

text \<open>
  \<^verbatim>\<open>search\<close>. The two identifiers drawn with \<^verbatim>\<open>uuid.uuid4()\<close> are parameters.
  \<^verbatim>\<open>raise_for_status()\<close> raises the \<^verbatim>\<open>HTTPError\<close> of \<^verbatim>\<open>requests\<close> for a status from 400 to 599.
\<close>

definition search ::
  "(search_body \<Rightarrow> sync_result reply) \<Rightarrow> string \<Rightarrow> string \<Rightarrow>
   string \<Rightarrow> string \<Rightarrow> int \<Rightarrow> string \<Rightarrow> int \<Rightarrow> int \<Rightarrow> (request list, string list) prog" where
  "search post query_id search_type_id query query_type timerange_seconds timerange_type page per_page =
     (let offset = (if page * per_page < 0 then 0 else page * per_page);
          search_body = \<lparr> sb_query_id = query_id, sb_query_type = query_type,
                          sb_query_string = query, sb_timerange_from = timerange_seconds,
                          sb_timerange_type = timerange_type, sb_search_type_id = search_type_id,
                          sb_limit = per_page, sb_offset = offset \<rparr>
      in then_do (\<lambda>log. case post search_body of
             Raised msg \<Rightarrow> (Inl (ConnectionFailed msg), log @ [Post_views_search_sync search_body])
           | Reply status_code body js \<Rightarrow>
               (if 400 \<le> status_code \<and> status_code < 600 then Inl (HTTPError status_code) else Inr js,
                log @ [Post_views_search_sync search_body])) (\<lambda>result.
         then_do (lift (subscript ''results'' (sr_results result))) (\<lambda>res.
         then_do (lift (case res of [] \<Rightarrow> Inl StopIteration | r # _ \<Rightarrow> Inr (snd r))) (\<lambda>results.
         then_do (lift (case map_of (get_or (qr_search_types results) []) search_type_id of
                          None \<Rightarrow> Inl AttributeError | Some st \<Rightarrow> Inr st)) (\<lambda>st.
           ret (get_or (st_messages st) []))))))"

datatype query_answer = Messages "string list" | Alerts "AlertDto list"

text \<open>
  \<^verbatim>\<open>_query\<close>. \<^verbatim>\<open>kwargs\<close> holds the same keys as the parameter mapping; a key that is not
  there is \<open>None\<close>.
\<close>

definition prot_query ::
  "(string \<Rightarrow> string option) \<Rightarrow> (string option list \<Rightarrow> string) \<Rightarrow>
   (search_body \<Rightarrow> sync_result reply) \<Rightarrow> (search_parameters \<Rightarrow> events_page reply) \<Rightarrow>
   string \<Rightarrow> string \<Rightarrow> search_parameters \<Rightarrow> search_parameters \<Rightarrow> (request list, query_answer) prog" where
  "prot_query fromisoformat H post_sync post_events query_id search_type_id
       events_search_parameters kwargs =
     (let query = py_or (sp_query kwargs) (sp_query events_search_parameters)
      in if truthy query then
           then_do (search post_sync query_id search_type_id (get_or query [])
               (get_or (sp_query_type kwargs)
                  (get_or (sp_query_type events_search_parameters) ''elastic''))
               (get_or (sp_timerange_seconds kwargs)
                  (get_or (sp_timerange_seconds events_search_parameters) 300))
               (get_or (sp_timerange_type kwargs)
                  (get_or (sp_timerange_type events_search_parameters) ''relative''))
               (get_or (sp_page kwargs) (get_or (sp_page events_search_parameters) 0))
               (get_or (sp_per_page kwargs) (get_or (sp_per_page events_search_parameters) 150)))
             (\<lambda>messages. ret (Messages messages))
         else
           then_do (priv_get_alerts post_events events_search_parameters) (\<lambda>response.
           then_do (lift (subscript ''events'' (events response))) (\<lambda>alerts.
           then_do (lift (map_all (priv_map_event_to_alert fromisoformat H) alerts)) (\<lambda>dtos.
             ret (Alerts dtos)))))"

subsection \<open>The provider instance: host and version\<close>

text \<open>
  The attributes of a provider instance that the host accessor and the version probe read
  and write: the configured deployment URL and TLS flag, the memo \<^verbatim>\<open>_host\<close>, what the
  logger has received, and the URLs the HTTPS probe has requested.
\<close>

record attrs =
  deployment_url :: string
  verify :: bool
  host :: "string option"
  logged :: "(string \<times> string) list"
  probed :: "string list"

record provider = attrs +
  is_v4 :: bool

definition logger :: "string \<Rightarrow> string \<Rightarrow> 'a attrs_scheme \<Rightarrow> 'a attrs_scheme" where
  "logger level msg self = self \<lparr> logged := logged self @ [(level, msg)] \<rparr>"

datatype probe_outcome = Answered | SSLError | OtherError string

text \<open>
  The property \<^verbatim>\<open>graylog_host\<close>. \<open>https_get\<close> is what
  \<^verbatim>\<open>requests.get(f"https://{deployment_url}", verify=...)\<close> does at the time of the call:
  it returns, raises \<^verbatim>\<open>requests.exceptions.SSLError\<close>, or raises something else.
\<close>

definition graylog_host ::
  "(string \<Rightarrow> probe_outcome) \<Rightarrow> 'a attrs_scheme \<Rightarrow> string \<times> 'a attrs_scheme" where
  "graylog_host https_get self0 =
     (let self = logger ''debug'' ''Fetching Graylog host'' self0 in
      if truthy (host self) then
        (get_or (host self) [], logger ''debug'' ''Returning cached Graylog host'' self)
      else if startswith (deployment_url self) ''http://''
              \<or> startswith (deployment_url self) ''https://'' then
        (deployment_url self,
         (logger ''info'' ''Using supplied Graylog host with protocol'' self)
           \<lparr> host := Some (deployment_url self) \<rparr>)
      else
        (let url = ''https://'' @ deployment_url self;
             self = (logger ''debug'' ''Trying HTTPS'' self) \<lparr> probed := probed self @ [url] \<rparr>;
             self = (case https_get url of
                 Answered \<Rightarrow>
                   (logger ''info'' ''HTTPS protocol confirmed'' self)
                     \<lparr> host := Some (''https://'' @ deployment_url self) \<rparr>
               | SSLError \<Rightarrow>
                   (logger ''warning'' ''SSL error encountered, falling back to HTTP'' self)
                     \<lparr> host := Some (''http://'' @ deployment_url self) \<rparr>
               | OtherError e \<Rightarrow>
                   (logger ''error'' ''Failed to determine Graylog host'' self)
                     \<lparr> host := Some (rstrip is_slash (deployment_url self)) \<rparr>)
         in (get_or (host self) [], self)))"

text \<open>
  \<^verbatim>\<open>__get_url\<close>, without query parameters (no caller passes any). The parameter \<open>urljoin\<close>
  stands for \<^verbatim>\<open>urllib.parse.urljoin\<close> of the standard library, applied to the base and to
  the paths joined with slashes.
\<close>

definition priv_get_url ::
  "(string \<Rightarrow> string \<Rightarrow> string) \<Rightarrow> (string \<Rightarrow> probe_outcome) \<Rightarrow> string list \<Rightarrow>
     'a attrs_scheme \<Rightarrow> string \<times> 'a attrs_scheme" where
  "priv_get_url urljoin https_get paths self0 =
     (let (h, self) = graylog_host https_get self0;
          base = rstrip is_space (rstrip is_slash h) @ ''/api/'';
          self = logger ''info'' ''Building URL with host'' self;
          url = urljoin base (join_with ''/'' paths)
      in (url, logger ''debug'' ''Constructed URL'' self))"

record root_json = \<comment> \<open>the JSON body of a response of the API root\<close>
  version :: "string option"

text \<open>
  \<^verbatim>\<open>__get_graylog_version\<close>: everything from the request on is inside \<^verbatim>\<open>try\<close>, and the
  handler logs the exception and falls off the end of the function, which returns
  \<^verbatim>\<open>None\<close>.
\<close>

definition priv_get_graylog_version ::
  "(string \<Rightarrow> string \<Rightarrow> string) \<Rightarrow> (string \<Rightarrow> probe_outcome) \<Rightarrow> (string \<Rightarrow> root_json reply) \<Rightarrow>
     'a attrs_scheme \<Rightarrow> string option \<times> 'a attrs_scheme" where
  "priv_get_graylog_version urljoin https_get http_get self0 =
     (let self = logger ''info'' ''Getting graylog version info'' self0;
          (url, self) = priv_get_url urljoin https_get [] self
      in case http_get url of
           Raised msg \<Rightarrow> (None, logger ''error'' ''Error while getting Graylog Version'' self)
         | Reply status_code body js \<Rightarrow>
             if status_code \<noteq> 200 then
               (None, logger ''error'' ''Error while getting Graylog Version'' self)
             else (case version js of
                 None \<Rightarrow> (None, logger ''error'' ''Error while getting Graylog Version'' self)
               | Some v \<Rightarrow>
                   (Some (strip is_space v),
                    logger ''info'' ''We are working with Graylog version'' self)))"

definition attr_startswith :: "string option \<Rightarrow> string \<Rightarrow> error + bool" where
  \<comment> \<open>\<^verbatim>\<open>v.startswith(p)\<close> on a value that may be \<^verbatim>\<open>None\<close>, which has no such attribute\<close>
  "attr_startswith v p = (case v of None \<Rightarrow> Inl AttributeError | Some s \<Rightarrow> Inr (startswith s p))"

text \<open>
  \<^verbatim>\<open>__init__\<close>, after the base class has stored the configuration:
  \<^verbatim>\<open>self._host = None\<close> and \<^verbatim>\<open>self.is_v4 = self.__get_graylog_version().startswith("4")\<close>.
\<close>

definition init ::
  "(string \<Rightarrow> string \<Rightarrow> string) \<Rightarrow> (string \<Rightarrow> probe_outcome) \<Rightarrow> (string \<Rightarrow> root_json reply) \<Rightarrow>
     string \<Rightarrow> bool \<Rightarrow> error + provider" where
  "init urljoin https_get http_get url tls =
     (let self0 = \<lparr> deployment_url = url, verify = tls, host = None, logged = [], probed = [] \<rparr>;
          (v, self) = priv_get_graylog_version urljoin https_get http_get self0
      in and_then (attr_startswith v ''4'') (\<lambda>flag. Inr (attrs.extend self \<lparr> is_v4 = flag \<rparr>)))"

text \<open>
  A run of further calls of the accessor on the same instance, each with the network as it
  is at the time of that call; used to state what holds after any number of calls.
\<close>

fun later_calls :: "(string \<Rightarrow> probe_outcome) list \<Rightarrow> 'a attrs_scheme \<Rightarrow> 'a attrs_scheme" where
  "later_calls [] self = self"
| "later_calls (https_get # nets) self = later_calls nets (snd (graylog_host https_get self))"

subsection \<open>The notification title\<close>

text \<open>
  What \<^verbatim>\<open>urllib.parse.urlparse\<close> of the standard library returns: the six components of
  a URL. The function itself is a parameter \<open>urlparse\<close> of what follows; it returns the
  components or raises \<^verbatim>\<open>ValueError\<close>.
\<close>

record ParseResult =
  pr_scheme :: string
  pr_netloc :: string
  pr_path :: string
  pr_params :: string
  pr_query :: string
  pr_fragment :: string

text \<open>
  \<^verbatim>\<open>s.split(sep)\<close>: the separator is searched from the left, and the search goes on after
  each occurrence found. An empty separator is a \<^verbatim>\<open>ValueError\<close>.
\<close>

function split_acc :: "string \<Rightarrow> string \<Rightarrow> string \<Rightarrow> string list" where
  "split_acc sep cur [] = [cur]"
| "split_acc sep cur (c # cs) =
     (if sep \<noteq> [] \<and> prefix sep (c # cs)
      then cur # split_acc sep [] (drop (length sep) (c # cs))
      else split_acc sep (cur @ [c]) cs)"
  by pat_completeness auto

termination
  by (relation "measure (\<lambda>(sep, cur, s). length s)") (auto simp: neq_Nil_conv)

definition py_split :: "string \<Rightarrow> string \<Rightarrow> error + string list" where
  "py_split s sep = (if sep = [] then Inl ValueError else Inr (split_acc sep [] s))"

text \<open>
  The first lines of \<^verbatim>\<open>setup_webhook\<close>: \<^verbatim>\<open>parsed_url = urlparse(keep_api_url)\<close>,
  \<^verbatim>\<open>query_params = parsed_url.query\<close>,
  \<^verbatim>\<open>provider_id = query_params.split("provider_id=")[-1]\<close> and
  \<^verbatim>\<open>notification_name = f"Keep-{provider_id}"\<close>.
\<close>

definition notification_name_of :: "(string \<Rightarrow> error + ParseResult) \<Rightarrow> string \<Rightarrow> error + string" where
  "notification_name_of urlparse keep_api_url =
     and_then (urlparse keep_api_url) (\<lambda>parsed_url.
     let query_params = pr_query parsed_url in
     and_then (py_split query_params ''provider_id='') (\<lambda>parts.
     and_then (list_index parts (- 1)) (\<lambda>provider_id.
       Inr (''Keep-'' @ provider_id))))"

definition borderless :: "string \<Rightarrow> bool" where
  \<comment> \<open>no proper prefix of the separator is also a suffix of it: two occurrences never overlap\<close>
  "borderless sep = list_all (\<lambda>k. take k sep \<noteq> drop (length sep - k) sep) [1 ..< length sep]"

subsection \<open>The backend\<close>

text \<open>
  The resources of the Graylog backend that \<^verbatim>\<open>setup_webhook\<close> reads and writes, as the
  interface table of the spec lists them. JSON bodies are records; the key \<^verbatim>\<open>_scope\<close> of an
  event definition is optional, since a v4 backend does not send it. An entry
  \<^verbatim>\<open>{"notification_id": i}\<close> of the list \<^verbatim>\<open>notifications\<close> of an event definition is the
  string \<open>i\<close>.
\<close>

record event_definition =
  ed_id :: string
  ed_scope :: "string option"
  ed_notifications :: "string list"

record whitelist_entry =
  we_id :: string
  we_title :: string
  we_value :: string
  we_type :: string

record url_whitelist =
  wl_entries :: "whitelist_entry list"
  wl_disabled :: bool

datatype notification_config =
    Http_notification_v1 string \<comment> \<open>\<^verbatim>\<open>url\<close>\<close>
  | Http_notification_v2 "string option" bool string "string option" string bool string string
      string string string
    \<comment> \<open>\<^verbatim>\<open>basic_auth\<close>, \<^verbatim>\<open>api_key_as_header\<close>, \<^verbatim>\<open>api_key\<close>, \<^verbatim>\<open>api_secret\<close>, \<^verbatim>\<open>url\<close>,
       \<^verbatim>\<open>skip_tls_verification\<close>, \<^verbatim>\<open>method\<close>, \<^verbatim>\<open>time_zone\<close>, \<^verbatim>\<open>content_type\<close>, \<^verbatim>\<open>headers\<close>,
       \<^verbatim>\<open>body_template\<close>\<close>

record notification_body =
  nb_title :: string
  nb_description :: string
  nb_config :: notification_config

record notification = notification_body +
  n_id :: string

record definitions_page = \<comment> \<open>the JSON body of a response of \<^verbatim>\<open>events/definitions\<close>\<close>
  dp_event_definitions :: "event_definition list"
  dp_total :: int

record notifications_page = \<comment> \<open>the JSON body of a response of \<^verbatim>\<open>events/notifications\<close>\<close>
  np_count :: int
  np_notifications :: "notification list"

datatype api_request =
    Get_events_definitions int int
  | Put_events_definitions event_definition
  | Get_system_urlwhitelist
  | Put_system_urlwhitelist url_whitelist
  | Get_events_notifications int int string
  | Delete_events_notifications string
  | Post_events_notifications notification_body

record backend =
  authorized :: bool \<comment> \<open>whether the backend accepts the access token\<close>
  stored_definitions :: "event_definition list"
  stored_whitelist :: url_whitelist
  stored_notifications :: "notification list"
  unused_ids :: "string list" \<comment> \<open>the ids the backend will give to the notifications it creates\<close>
  received :: "api_request list"

text \<open>
  How the backend answers. Pages are numbered from 1. A request without a valid token is
  answered 401. The title query matches a notification whose title is the queried name.
  A deletion or an update of something that does not exist is answered 404; a deletion
  removes the notification and leaves the event definitions as they are.
\<close>

definition page_of :: "int \<Rightarrow> int \<Rightarrow> 'a list \<Rightarrow> 'a list" where
  "page_of page per_page xs = take (nat per_page) (drop (nat ((page - 1) * per_page)) xs)"

definition answer ::
  "api_request \<Rightarrow> (backend \<Rightarrow> 'a reply \<times> backend) \<Rightarrow> 'a \<Rightarrow> backend \<Rightarrow> 'a reply \<times> backend" where
  "answer req serve no_body b =
     (let b = b \<lparr> received := received b @ [req] \<rparr>
      in if authorized b then serve b else (Reply 401 ''Unauthorized'' no_body, b))"

definition get_events_definitions :: "int \<Rightarrow> int \<Rightarrow> backend \<Rightarrow> definitions_page reply \<times> backend" where
  "get_events_definitions page per_page =
     answer (Get_events_definitions page per_page)
       (\<lambda>b. (Reply 200 [] \<lparr> dp_event_definitions = page_of page per_page (stored_definitions b),
                             dp_total = int (length (stored_definitions b)) \<rparr>, b))
       \<lparr> dp_event_definitions = [], dp_total = 0 \<rparr>"

definition put_events_definitions :: "event_definition \<Rightarrow> backend \<Rightarrow> unit reply \<times> backend" where
  "put_events_definitions ed =
     answer (Put_events_definitions ed)
       (\<lambda>b. if ed_id ed \<in> set (map ed_id (stored_definitions b))
             then (Reply 200 [] (),
                   b \<lparr> stored_definitions :=
                         map (\<lambda>d. if ed_id d = ed_id ed then ed else d) (stored_definitions b) \<rparr>)
             else (Reply 404 ''Not Found'' (), b))
       ()"

definition get_system_urlwhitelist :: "backend \<Rightarrow> url_whitelist reply \<times> backend" where
  "get_system_urlwhitelist =
     answer Get_system_urlwhitelist (\<lambda>b. (Reply 200 [] (stored_whitelist b), b))
       \<lparr> wl_entries = [], wl_disabled = False \<rparr>"

definition put_system_urlwhitelist :: "url_whitelist \<Rightarrow> backend \<Rightarrow> unit reply \<times> backend" where
  "put_system_urlwhitelist wl =
     answer (Put_system_urlwhitelist wl) (\<lambda>b. (Reply 204 [] (), b \<lparr> stored_whitelist := wl \<rparr>)) ()"

definition get_events_notifications ::
  "int \<Rightarrow> int \<Rightarrow> string \<Rightarrow> backend \<Rightarrow> notifications_page reply \<times> backend" where
  "get_events_notifications page per_page query =
     answer (Get_events_notifications page per_page query)
       (\<lambda>b. let found = page_of page per_page
                    (filter (\<lambda>n. ''title:'' @ nb_title n = query) (stored_notifications b))
             in (Reply 200 [] \<lparr> np_count = int (length found), np_notifications = found \<rparr>, b))
       \<lparr> np_count = 0, np_notifications = [] \<rparr>"

definition delete_events_notifications :: "string \<Rightarrow> backend \<Rightarrow> unit reply \<times> backend" where
  "delete_events_notifications i =
     answer (Delete_events_notifications i)
       (\<lambda>b. if i \<in> set (map n_id (stored_notifications b))
             then (Reply 204 [] (), b \<lparr> stored_notifications := filter (\<lambda>n. n_id n \<noteq> i) (stored_notifications b) \<rparr>)
             else (Reply 404 ''Not Found'' (), b))
       ()"

definition post_events_notifications ::
  "notification_body \<Rightarrow> backend \<Rightarrow> notification option reply \<times> backend" where
  "post_events_notifications body =
     answer (Post_events_notifications body)
       (\<lambda>b. case unused_ids b of
               [] \<Rightarrow> (Reply 500 ''Internal Server Error'' None, b)
             | i # ids \<Rightarrow>
                 (let n = notification_body.extend body \<lparr> n_id = i \<rparr>
                  in (Reply 200 [] (Some n),
                      b \<lparr> stored_notifications := stored_notifications b @ [n], unused_ids := ids \<rparr>)))
       None"

subsection \<open>The requests of the provider\<close>

definition expect :: "int \<Rightarrow> (backend \<Rightarrow> 'a reply \<times> backend) \<Rightarrow> (backend, 'a) prog" where
  \<comment> \<open>\<^verbatim>\<open>if response.status_code != code: raise Exception(response.text)\<close>, then
     \<^verbatim>\<open>response.json()\<close>; the handler logs the exception and raises it again\<close>
  "expect code send b =
     (case send b of
        (Raised msg, b') \<Rightarrow> (Inl (ConnectionFailed msg), b')
      | (Reply status_code body js, b') \<Rightarrow>
          (if status_code \<noteq> code then Inl (HttpFailure body) else Inr js, b'))"

definition priv_get_events :: "int \<Rightarrow> int \<Rightarrow> (backend, definitions_page) prog" where
  "priv_get_events page per_page = expect 200 (get_events_definitions page per_page)"

definition priv_update_event :: "event_definition \<Rightarrow> (backend, unit) prog" where
  "priv_update_event ev = expect 200 (put_events_definitions ev)"

definition priv_get_url_whitelist :: "(backend, url_whitelist) prog" where
  "priv_get_url_whitelist = expect 200 get_system_urlwhitelist"

definition priv_update_url_whitelist :: "url_whitelist \<Rightarrow> (backend, unit) prog" where
  "priv_update_url_whitelist wl = expect 204 (put_system_urlwhitelist wl)"

definition priv_get_notification :: "int \<Rightarrow> int \<Rightarrow> string \<Rightarrow> (backend, notifications_page) prog" where
  "priv_get_notification page per_page notification_name =
     expect 200 (get_events_notifications page per_page (''title:'' @ notification_name))"

definition priv_delete_notification :: "string \<Rightarrow> (backend, unit) prog" where
  "priv_delete_notification notification_id = expect 204 (delete_events_notifications notification_id)"

definition priv_create_notification :: "string \<Rightarrow> notification_body \<Rightarrow> (backend, notification option) prog" where
  "priv_create_notification notification_name notification_body =
     expect 200 (post_events_notifications notification_body)"

subsection \<open>Setting up the webhook\<close>

fun more_events :: "int list \<Rightarrow> event_definition list \<Rightarrow> (backend, event_definition list) prog" where
  \<comment> \<open>the loop \<^verbatim>\<open>for page in range(2, total_pages)\<close>\<close>
  "more_events [] event_definitions = ret event_definitions"
| "more_events (page # pages) event_definitions =
     then_do (priv_get_events page 100) (\<lambda>events.
       more_events pages (event_definitions @ dp_event_definitions events))"

definition collect_event_definitions :: "(backend, event_definition list) prog" where
  \<comment> \<open>lines 564 to 573: \<^verbatim>\<open>range(2, total_pages)\<close> ends at \<^verbatim>\<open>total_pages - 1\<close>\<close>
  "collect_event_definitions =
     then_do (priv_get_events 1 100) (\<lambda>events_1.
       more_events [2 .. ceil_div (dp_total events_1) 100 - 1] (dp_event_definitions events_1))"

definition whitelist_url :: "string \<Rightarrow> string \<Rightarrow> string \<Rightarrow> (backend, unit) prog" where
  \<comment> \<open>lines 575 to 593; \<open>uuid\<close> is the value of \<^verbatim>\<open>str(uuid.uuid4())\<close>\<close>
  "whitelist_url uuid notification_name keep_api_url =
     then_do priv_get_url_whitelist (\<lambda>url_whitelist.
       if list_ex (\<lambda>entry. we_value entry = keep_api_url) (wl_entries url_whitelist) then ret ()
       else priv_update_url_whitelist
              (url_whitelist \<lparr> wl_entries := wl_entries url_whitelist @
                 [\<lparr> we_id = uuid, we_title = notification_name, we_value = keep_api_url,
                    we_type = ''literal'' \<rparr>] \<rparr>))"

definition notification_body_of :: "bool \<Rightarrow> string \<Rightarrow> string \<Rightarrow> string \<Rightarrow> notification_body" where
  \<comment> \<open>lines 611 to 632\<close>
  "notification_body_of v4 notification_name keep_api_url api_key =
     \<lparr> nb_title = notification_name,
       nb_description =
         ''Hello, this Notification is created by Keep, please do not change the title.'',
       nb_config =
         (if v4 then Http_notification_v1 keep_api_url
          else Http_notification_v2 None False [] None keep_api_url True ''POST'' ''UTC'' ''JSON''
                 (''X-API-KEY:'' @ api_key) []) \<rparr>"

definition replace_notification ::
  "bool \<Rightarrow> string \<Rightarrow> string \<Rightarrow> string \<Rightarrow> (backend, string option \<times> string) prog" where
  \<comment> \<open>lines 595 to 635: the id of the notification deleted, if any, and the id of the new one\<close>
  "replace_notification v4 notification_name keep_api_url api_key =
     then_do (priv_get_notification 1 1 notification_name) (\<lambda>notification.
     then_do (if np_count notification > 0 then
                then_do (lift (list_index (np_notifications notification) 0)) (\<lambda>n.
                then_do (priv_delete_notification (n_id n)) (\<lambda>_. ret (Some (n_id n))))
              else ret None) (\<lambda>existing_notification_id.
     then_do (priv_create_notification notification_name
                (notification_body_of v4 notification_name keep_api_url api_key)) (\<lambda>new_notification.
     then_do (lift (subscript ''id'' (map_option n_id new_notification))) (\<lambda>new_id.
       ret (existing_notification_id, new_id)))))"

definition rebind :: "string option \<Rightarrow> string \<Rightarrow> event_definition \<Rightarrow> event_definition" where
  \<comment> \<open>lines 647 to 654: the first reference to the deleted notification is popped, and a
     reference to the new one is appended\<close>
  "rebind existing_notification_id new_id event_definition =
     event_definition \<lparr> ed_notifications :=
       (case existing_notification_id of
          None \<Rightarrow> ed_notifications event_definition
        | Some i \<Rightarrow> remove1 i (ed_notifications event_definition)) @ [new_id] \<rparr>"

fun update_events ::
  "bool \<Rightarrow> string option \<Rightarrow> string \<Rightarrow> event_definition list \<Rightarrow> (backend, unit) prog" where
  \<comment> \<open>the loop of lines 637 to 655; \<^verbatim>\<open>event_definition["_scope"]\<close> is read only when
     \<^verbatim>\<open>not self.is_v4\<close> holds\<close>
  "update_events v4 existing_notification_id new_id [] = ret ()"
| "update_events v4 existing_notification_id new_id (event_definition # rest) =
     then_do (if v4 then ret False
              else then_do (lift (subscript ''_scope'' (ed_scope event_definition))) (\<lambda>scope.
                     ret (scope = ''SYSTEM_NOTIFICATION_EVENT''))) (\<lambda>skip.
     then_do (if skip then ret ()
              else priv_update_event (rebind existing_notification_id new_id event_definition)) (\<lambda>_.
       update_events v4 existing_notification_id new_id rest))"

text \<open>
  \<^verbatim>\<open>setup_webhook\<close>; \<open>v4\<close> is \<^verbatim>\<open>self.is_v4\<close>. The title is derived before the \<^verbatim>\<open>try\<close>
  block, so an exception of \<^verbatim>\<open>urlparse\<close> ends the call before any request. An exception of
  any later step is logged and raised again, and ends the call.
\<close>

definition setup_webhook ::
  "(string \<Rightarrow> error + ParseResult) \<Rightarrow> bool \<Rightarrow> string \<Rightarrow> string \<Rightarrow> string \<Rightarrow> string \<Rightarrow>
     (backend, unit) prog" where
  "setup_webhook urlparse v4 uuid tenant_id keep_api_url api_key =
     then_do (lift (notification_name_of urlparse keep_api_url)) (\<lambda>notification_name.
     let keep_api_url = (if v4 then keep_api_url @ ''&api_key='' @ api_key else keep_api_url) in
     then_do collect_event_definitions (\<lambda>event_definitions.
     then_do (whitelist_url uuid notification_name keep_api_url) (\<lambda>_.
     then_do (replace_notification v4 notification_name keep_api_url api_key) (\<lambda>(existing, new_id).
       update_events v4 existing new_id event_definitions))))"

subsection \<open>Notions for the statements about the backend\<close>

text \<open>
  A relation between the backend before and after a call holds for a program when it
  holds whatever the program returns; it carries over the sequencing of programs when
  it is reflexive and transitive.
\<close>

definition frame :: "(backend \<Rightarrow> backend \<Rightarrow> bool) \<Rightarrow> (backend, 'a) prog \<Rightarrow> bool" where
  "frame R m = (\<forall>b. R b (snd (m b)))"

definition is_whitelist_write :: "api_request \<Rightarrow> bool" where
  "is_whitelist_write req = (case req of Put_system_urlwhitelist _ \<Rightarrow> True | _ \<Rightarrow> False)"

definition same_whitelist :: "backend \<Rightarrow> backend \<Rightarrow> bool" where
  \<comment> \<open>the stored whitelist is the same, and no request to write it has been added\<close>
  "same_whitelist b b' =
     (stored_whitelist b' = stored_whitelist b \<and>
      filter is_whitelist_write (received b') = filter is_whitelist_write (received b))"

definition is_create :: "api_request \<Rightarrow> bool" where
  "is_create req = (case req of Post_events_notifications _ \<Rightarrow> True | _ \<Rightarrow> False)"

definition same_creates :: "backend \<Rightarrow> backend \<Rightarrow> bool" where
  \<comment> \<open>no request to create a notification has been added\<close>
  "same_creates b b' = (filter is_create (received b') = filter is_create (received b))"

definition skipped :: "bool \<Rightarrow> event_definition \<Rightarrow> bool" where
  \<comment> \<open>the test of lines 638 to 643, for an event definition that has the key \<^verbatim>\<open>_scope\<close>\<close>
  "skipped v4 ed = (\<not> v4 \<and> ed_scope ed = Some ''SYSTEM_NOTIFICATION_EVENT'')"

definition rebound :: "bool \<Rightarrow> string option \<Rightarrow> string \<Rightarrow> event_definition \<Rightarrow> event_definition" where
  \<comment> \<open>what one call of \<^verbatim>\<open>setup_webhook\<close> makes of an event definition it has collected\<close>
  "rebound v4 existing new_id ed = (if skipped v4 ed then ed else rebind existing new_id ed)"

definition put_rebound ::
  "bool \<Rightarrow> string option \<Rightarrow> string \<Rightarrow> event_definition list \<Rightarrow> event_definition \<Rightarrow> event_definition list" where
  \<comment> \<open>the stored definitions after the loop has handled one collected definition\<close>
  "put_rebound v4 existing new_id ds ed =
     (if skipped v4 ed then ds
      else map (\<lambda>d. if ed_id d = ed_id ed then rebind existing new_id ed else d) ds)"

subsection \<open>Sample data\<close>

text \<open>Concrete events and backends, on which the theorems below are instantiated.\<close>

definition sample_event :: "string \<Rightarrow> int \<Rightarrow> string \<Rightarrow> raw_event" where
  "sample_event i p title =
     \<lparr> event = Some \<lparr> e_id = Some i, e_message = Some ''disk full'', e_priority = Some p,
                      e_event_definition_id = Some ''def-1'', e_origin_context = None,
                      e_timestamp = Some ''2024-12-23T18:49:00.000z'' \<rparr>,
       event_definition_title = Some title, event_definition_description = None \<rparr>"

definition sample_fromisoformat :: "string \<Rightarrow> string option" where
  \<comment> \<open>what the standard library gives for the timestamp of the sample events\<close>
  "sample_fromisoformat s =
     (if s = ''2024-12-23T18:49:00.000'' then Some ''2024-12-23T18:49:00+00:00'' else None)"

definition sample_hash :: "string option list \<Rightarrow> string" where
  \<comment> \<open>an identity fingerprint: the value of a single field, as it is\<close>
  "sample_hash vs = (case vs of [Some s] \<Rightarrow> s | _ \<Rightarrow> [])"

definition sample_page :: "int \<Rightarrow> raw_event list" where
  "sample_page p =
     (if p = 1 \<or> p = 2 then replicate 1000 (sample_event ''e1'' 1 ''t'')
      else if p = 3 then replicate 500 (sample_event ''e2'' 3 ''t'') else [])"

definition sample_search_backend :: "search_parameters \<Rightarrow> events_page reply" where
  "sample_search_backend json_data =
     Reply 200 [] \<lparr> events = Some (sample_page (get_or (sp_page json_data) 0)),
                    total_events = Some 2500 \<rparr>"

definition large_page :: "int \<Rightarrow> raw_event list" where
  "large_page p =
     (if 1 \<le> p \<and> p \<le> 10 then replicate 1000 (sample_event ''e1'' 1 ''t'')
      else if p = 11 then replicate 500 (sample_event ''e2'' 3 ''t'') else [])"

definition large_search_backend :: "search_parameters \<Rightarrow> events_page reply" where
  "large_search_backend json_data =
     Reply 200 [] \<lparr> events = Some (large_page (get_or (sp_page json_data) 0)),
                    total_events = Some 10500 \<rparr>"

definition no_kwargs :: search_parameters where
  "no_kwargs = \<lparr> sp_query = None, sp_query_type = None, sp_timerange_seconds = None,
       sp_timerange_type = None, sp_page = None, sp_per_page = None,
       sp_filter_alerts = None, sp_timerange = None \<rparr>"

definition two_events_backend :: "search_parameters \<Rightarrow> events_page reply" where
  "two_events_backend json_data =
     Reply 200 [] \<lparr> events = Some [sample_event ''e1'' 1 ''t'', sample_event ''e2'' 3 ''t''],
                    total_events = Some 2 \<rparr>"

definition fresh_attrs :: "string \<Rightarrow> attrs" where
  "fresh_attrs url = \<lparr> deployment_url = url, verify = True, host = None, logged = [], probed = [] \<rparr>"

definition sample_urljoin :: "string \<Rightarrow> string \<Rightarrow> string" where
  \<comment> \<open>\<^verbatim>\<open>urljoin(base, "")\<close>, the only join of the examples, is the base\<close>
  "sample_urljoin base url = base"

definition failing_root :: "string \<Rightarrow> root_json reply" where
  "failing_root url = Reply 503 ''Service Unavailable'' \<lparr> version = None \<rparr>"

definition sample_definition :: "string \<Rightarrow> string \<Rightarrow> event_definition" where
  "sample_definition i scope = \<lparr> ed_id = i, ed_scope = Some scope, ed_notifications = [] \<rparr>"

definition sample_backend :: "event_definition list \<Rightarrow> backend" where
  "sample_backend eds =
     \<lparr> authorized = True, stored_definitions = eds,
       stored_whitelist = \<lparr> wl_entries = [], wl_disabled = False \<rparr>, stored_notifications = [],
       unused_ids = [''n1'', ''n2'', ''n3''], received = [] \<rparr>"

definition many_definitions :: "nat \<Rightarrow> event_definition list" where
  "many_definitions n = map (\<lambda>k. sample_definition (replicate (Suc k) CHR ''d'') ''DEFAULT'') [0 ..< n]"

definition sample_url :: string where
  "sample_url = ''https://keep.example/alerts/event/graylog?provider_id=abc''"

definition sample_queries :: "(string \<times> string) list" where
  \<comment> \<open>the callback URLs of the examples, each with its query string\<close>
  "sample_queries =
     [(''https://keep.example/alerts/event/graylog?provider_id=abc'', ''provider_id=abc''),
      (''https://keep.example/alerts/event/graylog?provider_id=abc123&env=prod'',
       ''provider_id=abc123&env=prod''),
      (''https://keep.example/alerts/event/graylog?provider_id=a&next=provider_id=b'',
       ''provider_id=a&next=provider_id=b''),
      (''https://keep.example/alerts/event/graylog?tenant=acme'', ''tenant=acme'')]"

definition sample_urlparse :: "string \<Rightarrow> error + ParseResult" where
  \<comment> \<open>what \<^verbatim>\<open>urlparse\<close> gives for the callback URLs of the examples; the one other URL of the
     examples, \<^verbatim>\<open>http://[bad/x]?provider_id=abc\<close>, has an unbalanced bracket in its network
     location and is a \<^verbatim>\<open>ValueError\<close>\<close>
  "sample_urlparse url =
     (case map_of sample_queries url of
        Some q \<Rightarrow> Inr \<lparr> pr_scheme = ''https'', pr_netloc = ''keep.example'',
                         pr_path = ''/alerts/event/graylog'', pr_params = [], pr_query = q,
                         pr_fragment = [] \<rparr>
      | None \<Rightarrow> Inl ValueError)"

definition two_definitions :: "event_definition list" where
  "two_definitions = [sample_definition ''d1'' ''DEFAULT'',
                      sample_definition ''d2'' ''SYSTEM_NOTIFICATION_EVENT'']"

definition locked_backend :: backend where
  "locked_backend = (sample_backend two_definitions) \<lparr> authorized := False \<rparr>"

section \<open>Properties\<close>

lemma and_then_simps:
  "and_then (Inl e) k = Inl e"
  "and_then (Inr v) k = k v"
  by (simp_all add: and_then_def)

lemma subscript_simps:
  "subscript key None = Inl (KeyError key)"
  "subscript key (Some v) = Inr v"
  by (simp_all add: subscript_def)

lemma map_event_unfold:
  assumes "event ev = Some b" "e_id b = Some i" "e_message b = Some m" "e_priority b = Some p"
  shows "priv_map_event_to_alert fromisoformat H ev =
     and_then (list_index [LOW, WARNING, HIGH] (p - 1)) (\<lambda>sev.
     and_then (subscript ''event_definition_id'' (e_event_definition_id b)) (\<lambda>def_id.
     and_then (subscript ''timestamp'' (e_timestamp b)) (\<lambda>ts.
     and_then (case fromisoformat (filter (\<lambda>c. c \<noteq> CHR ''z'') ts) of
                 None \<Rightarrow> Inl ValueError | Some t \<Rightarrow> Inr t) (\<lambda>last_received.
       Inr \<lparr> a_id = i, a_name = get_or (event_definition_title ev) m, a_severity = sev,
             a_description = event_definition_description ev, a_event_definition_id = def_id,
             a_origin_context = e_origin_context b, a_status = FIRING,
             a_lastReceived = last_received, a_message = Some m, a_source = [''graylog''],
             a_fingerprint = Some (H [Some i]) \<rparr>))))"
  using assms
  by (simp add: priv_map_event_to_alert_def and_then_simps subscript_simps Let_def
      get_alert_fingerprint_def FINGERPRINT_FIELDS_def alert_field_def)

lemma map_event_Inr_keys:
  assumes "priv_map_event_to_alert fromisoformat H ev = Inr a"
  shows "\<exists>b i m p. event ev = Some b \<and> e_id b = Some i \<and> e_message b = Some m \<and> e_priority b = Some p"
  using assms
  by (auto simp: priv_map_event_to_alert_def and_then_def subscript_def
      split: option.splits sum.splits)

lemma map_event_fingerprint:
  assumes "priv_map_event_to_alert fromisoformat H ev = Inr a"
  shows "\<exists>i. Option.bind (event ev) e_id = Some i \<and> a_fingerprint a = Some (H [Some i])"
proof -
  from map_event_Inr_keys [OF assms] obtain b i m p where
    k: "event ev = Some b" "e_id b = Some i" "e_message b = Some m" "e_priority b = Some p"
    by blast
  from assms have "a_fingerprint a = Some (H [Some i])"
    unfolding map_event_unfold [OF k]
    by (auto simp: and_then_def split: sum.splits option.splits)
  with k show ?thesis by simp
qed

lemma severity_index:
  "list_index [LOW, WARNING, HIGH] (p - 1) =
     (if 3 < p \<or> p < - 2 then Inl IndexError
      else Inr (if p = 1 \<or> p = - 2 then LOW else if p = 2 \<or> p = - 1 then WARNING else HIGH))"
proof -
  consider "3 < p \<or> p < - 2" | "p = - 2" | "p = - 1" | "p = 0" | "p = 1" | "p = 2" | "p = 3"
    by linarith
  then show ?thesis
    by cases (auto simp: list_index_def)
qed

subsection \<open>Severity of a priority\<close>

text \<open>
  C4 (as amended). In \<^verbatim>\<open>__map_event_to_alert\<close> the severity is
  \<^verbatim>\<open>[LOW, WARNING, HIGH][int(priority) - 1]\<close>. For an event that has the keys read before
  the priority, a priority above 3 or below -2 raises \<^verbatim>\<open>IndexError\<close>. For an event
  that has every required key and a timestamp that parses, priority 1 gives LOW, 2 gives
  WARNING and 3 gives HIGH, and there is no default severity; the priorities 0, -1 and -2
  do not fail, because a negative index counts from the end of the list: they give
  HIGH, WARNING and LOW.
\<close>

theorem map_event_severity:
  assumes "event ev = Some b" "e_id b = Some i" "e_message b = Some m" "e_priority b = Some p"
  shows "(3 < p \<or> p < - 2 \<longrightarrow> priv_map_event_to_alert fromisoformat H ev = Inl IndexError) \<and>
         (e_event_definition_id b = Some d \<and> e_timestamp b = Some ts \<and>
          fromisoformat (filter (\<lambda>c. c \<noteq> CHR ''z'') ts) = Some t \<and> - 2 \<le> p \<and> p \<le> 3 \<longrightarrow>
            (\<exists>a. priv_map_event_to_alert fromisoformat H ev = Inr a \<and>
                 a_severity a = (if p = 1 \<or> p = - 2 then LOW
                                 else if p = 2 \<or> p = - 1 then WARNING else HIGH)))"
  unfolding map_event_unfold [OF assms] severity_index
  by (simp add: and_then_simps subscript_simps)

theorem map_event_severity_witness:
  "priv_map_event_to_alert sample_fromisoformat sample_hash (sample_event ''e1'' 4 ''t'') = Inl IndexError \<and>
   (\<exists>a. priv_map_event_to_alert sample_fromisoformat sample_hash (sample_event ''e1'' 2 ''t'') = Inr a \<and>
        a_severity a = WARNING)"
proof -
  have body: "event (sample_event ''e1'' p ''t'') =
      Some \<lparr> e_id = Some ''e1'', e_message = Some ''disk full'', e_priority = Some p,
             e_event_definition_id = Some ''def-1'', e_origin_context = None,
             e_timestamp = Some ''2024-12-23T18:49:00.000z'' \<rparr>" for p
    by (simp add: sample_event_def)
  from map_event_severity [where p = 4 and i = "''e1''" and m = "''disk full''"
         and fromisoformat = sample_fromisoformat and H = sample_hash, OF body]
       map_event_severity [where p = 2 and i = "''e1''" and m = "''disk full''"
         and fromisoformat = sample_fromisoformat and H = sample_hash and d = "''def-1''"
         and ts = "''2024-12-23T18:49:00.000z''" and t = "''2024-12-23T18:49:00+00:00''", OF body]
  show ?thesis
    by (simp add: sample_fromisoformat_def)
qed

theorem map_event_priority_zero_counterexample:
  "map_sum id a_severity
     (priv_map_event_to_alert sample_fromisoformat sample_hash (sample_event ''e1'' 0 ''t'')) = Inr HIGH"
  by (simp add: priv_map_event_to_alert_def sample_event_def sample_fromisoformat_def
      and_then_simps subscript_simps list_index_def Let_def)

lemma sample_event_maps:
  assumes "1 \<le> p" "p \<le> 3"
  shows "\<exists>a. priv_map_event_to_alert sample_fromisoformat sample_hash (sample_event i p title) = Inr a"
proof -
  have "event (sample_event i p title) =
      Some \<lparr> e_id = Some i, e_message = Some ''disk full'', e_priority = Some p,
             e_event_definition_id = Some ''def-1'', e_origin_context = None,
             e_timestamp = Some ''2024-12-23T18:49:00.000z'' \<rparr>"
    by (simp add: sample_event_def)
  from map_event_unfold [OF this, of i "''disk full''" p sample_fromisoformat sample_hash] assms
  show ?thesis
    by (simp add: severity_index and_then_simps subscript_simps sample_fromisoformat_def)
qed

lemma then_do_simps:
  "then_do (ret v) k s = k v s"
  "then_do (lift (Inr v)) k s = k v s"
  "then_do (lift (Inl e)) k s = (Inl e, s)"
  by (simp_all add: then_do_def ret_def lift_def)

lemma priv_get_alerts_ok:
  assumes "post jd = Reply 200 t js" "sp_page jd = Some p" "sp_per_page jd = Some pp"
  shows "priv_get_alerts post jd log = (Inr js, log @ [Post_events_search jd])"
  using assms by (simp add: priv_get_alerts_def then_do_simps subscript_simps)

lemma fetch_pages_ok:
  assumes "\<forall>p\<in>set ps. \<exists>t tot. post (base \<lparr> sp_page := Some p \<rparr>) =
             Reply 200 t \<lparr> events = Some (pg p), total_events = tot \<rparr>"
    and "sp_per_page base = Some pp"
  shows "fetch_pages post (base \<lparr> sp_page := q \<rparr>) ps acc log =
     (Inr (acc @ concat (map pg ps)),
      log @ map (\<lambda>p. Post_events_search (base \<lparr> sp_page := Some p \<rparr>)) ps)"
  using assms
proof (induction ps arbitrary: q acc log)
  case Nil
  then show ?case by (simp add: ret_def)
next
  case (Cons p ps)
  from Cons.prems obtain t tot where
    r: "post (base \<lparr> sp_page := Some p \<rparr>) = Reply 200 t \<lparr> events = Some (pg p), total_events = tot \<rparr>"
    by auto
  have g: "priv_get_alerts post (base \<lparr> sp_page := Some p \<rparr>) log =
      (Inr \<lparr> events = Some (pg p), total_events = tot \<rparr>,
       log @ [Post_events_search (base \<lparr> sp_page := Some p \<rparr>)])"
    using r Cons.prems(2) by (intro priv_get_alerts_ok) simp_all
  have IH: "fetch_pages post (base \<lparr> sp_page := Some p \<rparr>) ps (acc @ pg p)
        (log @ [Post_events_search (base \<lparr> sp_page := Some p \<rparr>)]) =
      (Inr ((acc @ pg p) @ concat (map pg ps)),
       (log @ [Post_events_search (base \<lparr> sp_page := Some p \<rparr>)]) @
         map (\<lambda>p. Post_events_search (base \<lparr> sp_page := Some p \<rparr>)) ps)"
    using Cons.prems by (intro Cons.IH) simp_all
  show ?case
    by (simp add: then_do_def g lift_def subscript_simps IH)
qed

lemma map_all_ok:
  assumes "\<forall>x\<in>set xs. \<exists>y. f x = Inr y"
  shows "\<exists>ys. map_all f xs = Inr ys \<and> length ys = length xs"
  using assms by (induction xs) (auto simp: and_then_simps)

lemma upto_from_1: "1 \<le> n \<Longrightarrow> [1..n] = 1 # [2..n]"
  by (simp add: upto_rec1)

lemma ceil_div_1000:
  assumes "1000 * (c - 1) < n" "n \<le> 1000 * c"
  shows "ceil_div n 1000 = c"
proof -
  have "(- n) div 1000 = - c"
  proof (rule int_div_pos_eq [where r = "1000 * c - n"])
    show "- n = 1000 * - c + (1000 * c - n)" by simp
    show "0 \<le> 1000 * c - n" using assms by simp
    show "1000 * c - n < 1000" using assms by simp
  qed
  then show ?thesis by (simp add: ceil_div_def)
qed

subsection \<open>Pages of the alert fetch\<close>

text \<open>
  C6. \<^verbatim>\<open>_get_alerts\<close> asks for the first page with a page size of 1000 and reads
  \<^verbatim>\<open>total_events\<close> from it. Let \<open>c\<close> be the ceiling of \<^verbatim>\<open>total_events / 1000\<close>, that is
  the integer with \<open>1000 * (c - 1) < total_events \<le> 1000 * c\<close>; the number of pages is
  \<open>max 10 c\<close>, so never below 10. When every page is answered with status 200 and every
  event maps to an alert, exactly that many requests are issued, one per page from 1 on,
  and the number of alerts returned is the sum of the numbers of events of the pages. A
  first page that reports 2500 gives 10 requests.
\<close>

theorem get_alerts_pages:
  assumes ceiling: "1000 * (c - 1) < reported" "reported \<le> 1000 * c"
    and first: "post alerts_json_data = Reply 200 t \<lparr> events = Some (pg 1), total_events = Some reported \<rparr>"
    and rest: "\<forall>p\<in>{2 .. max 10 c}. \<exists>t tot.
                 post (alerts_json_data \<lparr> sp_page := Some p \<rparr>) =
                 Reply 200 t \<lparr> events = Some (pg p), total_events = tot \<rparr>"
    and valid: "\<forall>p\<in>{1 .. max 10 c}. \<forall>e\<in>set (pg p).
                 \<exists>a. priv_map_event_to_alert fromisoformat H e = Inr a"
  shows "\<exists>alerts log. prot_get_alerts fromisoformat H post [] = (Inr alerts, log) \<and>
          log = map (\<lambda>p. Post_events_search (alerts_json_data \<lparr> sp_page := Some p \<rparr>))
                  [1 .. max 10 c] \<and>
          int (length log) = max 10 c \<and>
          (reported = 2500 \<longrightarrow> length log = 10) \<and>
          length alerts = (\<Sum>p\<leftarrow>[1 .. max 10 c]. length (pg p))"
proof -
  define n where "n = max 10 c"
  have pages: "max 10 (ceil_div reported 1000) = n"
    unfolding n_def using ceil_div_1000 [OF ceiling] by simp
  have n1: "1 \<le> n" by (simp add: n_def)
  have self: "alerts_json_data \<lparr> sp_page := Some 1 \<rparr> = alerts_json_data"
    by (simp add: alerts_json_data_def)
  have g1: "priv_get_alerts post alerts_json_data [] =
      (Inr \<lparr> events = Some (pg 1), total_events = Some reported \<rparr>, [Post_events_search alerts_json_data])"
    using priv_get_alerts_ok [where post = post and jd = alerts_json_data and log = "[]"
        and p = 1 and pp = 1000, OF first]
    by (simp add: alerts_json_data_def)
  have loop: "fetch_pages post alerts_json_data [2..n] (pg 1) [Post_events_search alerts_json_data] =
      (Inr (pg 1 @ concat (map pg [2..n])),
       [Post_events_search alerts_json_data] @
         map (\<lambda>p. Post_events_search (alerts_json_data \<lparr> sp_page := Some p \<rparr>)) [2..n])"
    using fetch_pages_ok [where base = alerts_json_data and ps = "[2..n]" and post = post
        and pg = pg and pp = 1000 and q = "Some 1"] rest
    by (simp add: self n_def alerts_json_data_def)
  have all: "pg 1 @ concat (map pg [2..n]) = concat (map pg [1..n])"
    by (simp add: upto_from_1 [OF n1])
  have "\<forall>e\<in>set (concat (map pg [1..n])). \<exists>a. priv_map_event_to_alert fromisoformat H e = Inr a"
    using valid by (auto simp: n_def)
  from map_all_ok [OF this] obtain alerts where
    m: "map_all (priv_map_event_to_alert fromisoformat H) (concat (map pg [1..n])) = Inr alerts"
       "length alerts = length (concat (map pg [1..n]))"
    by blast
  have run0: "prot_get_alerts fromisoformat H post [] =
      (Inr alerts, Post_events_search alerts_json_data #
         map (\<lambda>p. Post_events_search (alerts_json_data \<lparr> sp_page := Some p \<rparr>)) [2..n])"
    unfolding prot_get_alerts_def
    by (simp add: then_do_def g1 lift_def subscript_simps pages loop all m)
  have "Post_events_search alerts_json_data #
         map (\<lambda>p. Post_events_search (alerts_json_data \<lparr> sp_page := Some p \<rparr>)) [2..n] =
       map (\<lambda>p. Post_events_search (alerts_json_data \<lparr> sp_page := Some p \<rparr>)) [1..n]"
    by (simp add: upto_from_1 [OF n1] self)
  with run0 have run: "prot_get_alerts fromisoformat H post [] =
      (Inr alerts, map (\<lambda>p. Post_events_search (alerts_json_data \<lparr> sp_page := Some p \<rparr>)) [1..n])"
    by (simp only:)
  have len: "length alerts = (\<Sum>p\<leftarrow>[1..n]. length (pg p))"
    by (simp add: m length_concat comp_def)
  have cnt: "int (length (map (\<lambda>p. Post_events_search (alerts_json_data \<lparr> sp_page := Some p \<rparr>)) [1..n])) = n"
    using n1 by simp
  have "reported = 2500 \<longrightarrow> n = 10"
    using ceiling by (simp add: n_def)
  with cnt have ten: "reported = 2500 \<longrightarrow>
      length (map (\<lambda>p. Post_events_search (alerts_json_data \<lparr> sp_page := Some p \<rparr>)) [1..n]) = 10"
    by auto
  show ?thesis
    unfolding n_def [symmetric]
    using run len cnt ten by (intro exI conjI) (assumption | rule refl)+
qed

lemma sum_sample_pages: "(\<Sum>p\<leftarrow>[1..10]. length (sample_page p)) = 2500"
  by (simp add: sample_page_def upto_rec1)

lemma sum_large_pages: "(\<Sum>p\<leftarrow>[1..11]. length (large_page p)) = 10500"
  by (simp add: large_page_def upto_rec1)

theorem get_alerts_pages_witness:
  "(\<exists>alerts log. prot_get_alerts sample_fromisoformat sample_hash sample_search_backend [] = (Inr alerts, log) \<and>
      log = map (\<lambda>p. Post_events_search (alerts_json_data \<lparr> sp_page := Some p \<rparr>)) [1 .. 10] \<and>
      length log = 10 \<and> length alerts = 2500) \<and>
   (\<exists>alerts log. prot_get_alerts sample_fromisoformat sample_hash large_search_backend [] = (Inr alerts, log) \<and>
      log = map (\<lambda>p. Post_events_search (alerts_json_data \<lparr> sp_page := Some p \<rparr>)) [1 .. 11] \<and>
      length log = 11 \<and> length alerts = 10500)"
proof
  have first: "sample_search_backend alerts_json_data =
      Reply 200 [] \<lparr> events = Some (sample_page 1), total_events = Some 2500 \<rparr>"
    by (simp add: sample_search_backend_def alerts_json_data_def get_or_def)
  have rest: "\<forall>p\<in>{2 .. max 10 3}. \<exists>t tot.
      sample_search_backend (alerts_json_data \<lparr> sp_page := Some p \<rparr>) =
      Reply 200 t \<lparr> events = Some (sample_page p), total_events = tot \<rparr>"
    by (simp add: sample_search_backend_def get_or_def)
  have valid: "\<forall>p\<in>{1 .. max 10 3}. \<forall>e\<in>set (sample_page p).
      \<exists>a. priv_map_event_to_alert sample_fromisoformat sample_hash e = Inr a"
    using sample_event_maps [of 1] sample_event_maps [of 3]
    by (auto simp: sample_page_def split: if_splits)
  from get_alerts_pages [where c = 3 and reported = 2500, OF _ _ first rest valid]
  obtain alerts log where
    "prot_get_alerts sample_fromisoformat sample_hash sample_search_backend [] = (Inr alerts, log)"
    "log = map (\<lambda>p. Post_events_search (alerts_json_data \<lparr> sp_page := Some p \<rparr>)) [1 .. 10]"
    "length log = 10" "length alerts = 2500"
    by (auto simp: sum_sample_pages)
  then show "\<exists>alerts log. prot_get_alerts sample_fromisoformat sample_hash sample_search_backend [] = (Inr alerts, log) \<and>
      log = map (\<lambda>p. Post_events_search (alerts_json_data \<lparr> sp_page := Some p \<rparr>)) [1 .. 10] \<and>
      length log = 10 \<and> length alerts = 2500"
    by blast
next
  have first: "large_search_backend alerts_json_data =
      Reply 200 [] \<lparr> events = Some (large_page 1), total_events = Some 10500 \<rparr>"
    by (simp add: large_search_backend_def alerts_json_data_def get_or_def)
  have rest: "\<forall>p\<in>{2 .. max 10 11}. \<exists>t tot.
      large_search_backend (alerts_json_data \<lparr> sp_page := Some p \<rparr>) =
      Reply 200 t \<lparr> events = Some (large_page p), total_events = tot \<rparr>"
    by (simp add: large_search_backend_def get_or_def)
  have valid: "\<forall>p\<in>{1 .. max 10 11}. \<forall>e\<in>set (large_page p).
      \<exists>a. priv_map_event_to_alert sample_fromisoformat sample_hash e = Inr a"
    using sample_event_maps [of 1] sample_event_maps [of 3]
    by (auto simp: large_page_def split: if_splits)
  from get_alerts_pages [where c = 11 and reported = 10500, OF _ _ first rest valid]
  obtain alerts log where
    "prot_get_alerts sample_fromisoformat sample_hash large_search_backend [] = (Inr alerts, log)"
    "log = map (\<lambda>p. Post_events_search (alerts_json_data \<lparr> sp_page := Some p \<rparr>)) [1 .. 11]"
    "int (length log) = 11" "length alerts = 10500"
    by (auto simp: sum_large_pages)
  then show "\<exists>alerts log. prot_get_alerts sample_fromisoformat sample_hash large_search_backend [] = (Inr alerts, log) \<and>
      log = map (\<lambda>p. Post_events_search (alerts_json_data \<lparr> sp_page := Some p \<rparr>)) [1 .. 11] \<and>
      length log = 11 \<and> length alerts = 10500"
    by auto
qed

subsection \<open>Dispatch of the generic query\<close>

text \<open>
  C9. \<^verbatim>\<open>_query\<close> tests the truth value of
  \<^verbatim>\<open>kwargs.get("query") or events_search_parameters.get("query")\<close>. When the parameter
  mapping holds the empty string under \<^verbatim>\<open>query\<close> and \<^verbatim>\<open>kwargs\<close> holds no query or an empty
  one, the call is the alert search on the parameter mapping, as for a mapping without a
  query: its result is the alerts mapped from the events of \<^verbatim>\<open>__get_alerts\<close>, and the
  only request it can issue is the one to \<^verbatim>\<open>events/search\<close>.
\<close>

theorem query_empty_string_goes_to_alert_search:
  assumes "sp_query events_search_parameters = Some []"
    and "sp_query kwargs = None \<or> sp_query kwargs = Some []"
  shows "prot_query fromisoformat H post_sync post_events query_id search_type_id
           events_search_parameters kwargs log =
         then_do (priv_get_alerts post_events events_search_parameters) (\<lambda>response.
         then_do (lift (subscript ''events'' (events response))) (\<lambda>alerts.
         then_do (lift (map_all (priv_map_event_to_alert fromisoformat H) alerts)) (\<lambda>dtos.
           ret (Alerts dtos)))) log \<and>
         prot_query fromisoformat H post_sync post_events query_id search_type_id
           events_search_parameters kwargs log =
         prot_query fromisoformat H post_sync post_events query_id search_type_id
           events_search_parameters (kwargs \<lparr> sp_query := None \<rparr>) log \<and>
         snd (prot_query fromisoformat H post_sync post_events query_id search_type_id
           events_search_parameters kwargs log) \<in>
         {log, log @ [Post_events_search events_search_parameters]}"
proof -
  have q: "\<not> truthy (py_or (sp_query kwargs) (sp_query events_search_parameters))"
    "\<not> truthy (py_or None (sp_query events_search_parameters))"
    using assms by (auto simp: py_or_def truthy_def)
  have 1: "prot_query fromisoformat H post_sync post_events query_id search_type_id
           events_search_parameters kwargs log =
         then_do (priv_get_alerts post_events events_search_parameters) (\<lambda>response.
         then_do (lift (subscript ''events'' (events response))) (\<lambda>alerts.
         then_do (lift (map_all (priv_map_event_to_alert fromisoformat H) alerts)) (\<lambda>dtos.
           ret (Alerts dtos)))) log"
    using q by (simp add: prot_query_def Let_def)
  have 2: "prot_query fromisoformat H post_sync post_events query_id search_type_id
           events_search_parameters (kwargs \<lparr> sp_query := None \<rparr>) log =
         then_do (priv_get_alerts post_events events_search_parameters) (\<lambda>response.
         then_do (lift (subscript ''events'' (events response))) (\<lambda>alerts.
         then_do (lift (map_all (priv_map_event_to_alert fromisoformat H) alerts)) (\<lambda>dtos.
           ret (Alerts dtos)))) log"
    using q by (simp add: prot_query_def Let_def)
  have 3: "snd (prot_query fromisoformat H post_sync post_events query_id search_type_id
           events_search_parameters kwargs log) \<in>
         {log, log @ [Post_events_search events_search_parameters]}"
    unfolding 1
    by (auto simp: then_do_def priv_get_alerts_def lift_def ret_def subscript_def
        split: option.splits sum.splits reply.splits prod.splits if_splits)
  from 1 2 3 show ?thesis by simp
qed

theorem query_empty_string_goes_to_alert_search_witness:
  "\<exists>a1 a2. prot_query sample_fromisoformat sample_hash (\<lambda>_. Raised ''not asked'') two_events_backend ''q'' ''s''
       alerts_json_data no_kwargs [] =
     (Inr (Alerts [a1, a2]), [Post_events_search alerts_json_data])"
proof -
  obtain a1 where 1: "priv_map_event_to_alert sample_fromisoformat sample_hash (sample_event ''e1'' 1 ''t'') = Inr a1"
    using sample_event_maps [of 1] by auto
  obtain a2 where 2: "priv_map_event_to_alert sample_fromisoformat sample_hash (sample_event ''e2'' 3 ''t'') = Inr a2"
    using sample_event_maps [of 3] by auto
  have "prot_query sample_fromisoformat sample_hash (\<lambda>_. Raised ''not asked'') two_events_backend ''q'' ''s''
       alerts_json_data no_kwargs [] =
     (Inr (Alerts [a1, a2]), [Post_events_search alerts_json_data])"
    using query_empty_string_goes_to_alert_search [where events_search_parameters = alerts_json_data
        and kwargs = no_kwargs and fromisoformat = sample_fromisoformat and H = sample_hash
        and post_events = two_events_backend and log = "[]"
        and post_sync = "\<lambda>_. Raised ''not asked''" and query_id = "''q''" and search_type_id = "''s''"]
    by (simp add: alerts_json_data_def no_kwargs_def then_do_def priv_get_alerts_def lift_def
        subscript_simps two_events_backend_def and_then_simps 1 2 ret_def)
  then show ?thesis by blast
qed

lemma logger_simps:
  "logged (logger level msg self) = logged self @ [(level, msg)]"
  "host (logger level msg self) = host self"
  "probed (logger level msg self) = probed self"
  "deployment_url (logger level msg self) = deployment_url self"
  "verify (logger level msg self) = verify self"
  by (simp_all add: logger_def)

lemma graylog_host_cached:
  assumes "host self = Some h" "h \<noteq> []"
  shows "graylog_host https_get self =
     (h, logger ''debug'' ''Returning cached Graylog host'' (logger ''debug'' ''Fetching Graylog host'' self))"
  using assms by (simp add: graylog_host_def logger_def truthy_def get_or_def Let_def)

lemma graylog_host_cached_frame:
  assumes "host self = Some h" "h \<noteq> []"
  shows "fst (graylog_host https_get self) = h"
    and "host (snd (graylog_host https_get self)) = Some h"
    and "probed (snd (graylog_host https_get self)) = probed self"
    and "deployment_url (snd (graylog_host https_get self)) = deployment_url self"
  using assms by (simp_all add: graylog_host_cached logger_def)

lemma rstrip_nonempty:
  assumes "\<exists>c\<in>set s. \<not> P c"
  shows "rstrip P s \<noteq> []"
proof -
  from assms have "\<exists>c\<in>set (rev s). \<not> P c" by simp
  then have "dropWhile P (rev s) \<noteq> []"
    by (metis dropWhile_eq_Nil_conv)
  then show ?thesis by (simp add: rstrip_def)
qed

lemma graylog_host_resolves:
  assumes "host self = None" "\<exists>c\<in>set (deployment_url self). c \<noteq> CHR ''/''"
  shows "\<exists>h. h \<noteq> [] \<and> fst (graylog_host https_get self) = h \<and>
             host (snd (graylog_host https_get self)) = Some h \<and>
             deployment_url (snd (graylog_host https_get self)) = deployment_url self"
proof -
  have "rstrip is_slash (deployment_url self) \<noteq> []"
    using assms(2) by (intro rstrip_nonempty) (simp add: is_slash_def)
  moreover have "deployment_url self \<noteq> []" using assms(2) by auto
  ultimately show ?thesis
    using assms(1)
    by (cases "https_get (''https://'' @ deployment_url self)")
       (auto simp: graylog_host_def logger_def truthy_def get_or_def Let_def)
qed

lemma later_calls_cached:
  assumes "host self = Some h" "h \<noteq> []"
  shows "host (later_calls nets self) = Some h \<and> probed (later_calls nets self) = probed self"
  using assms
proof (induction nets arbitrary: self)
  case Nil
  then show ?case by simp
next
  case (Cons n nets)
  have "host (snd (graylog_host n self)) = Some h" "probed (snd (graylog_host n self)) = probed self"
    using graylog_host_cached_frame [OF Cons.prems] by simp_all
  with Cons.IH [of "snd (graylog_host n self)"] Cons.prems(2) show ?case by simp
qed

subsection \<open>The memoized host\<close>

text \<open>
  C7. An instance starts with \<^verbatim>\<open>_host = None\<close>. The first call of the accessor resolves
  the host and stores it; for a deployment URL that holds a character other than a slash
  (every URL with a scheme does) the stored value is a non-empty string. From then on,
  after any number of further calls and whatever a probe would answer at that time, a
  call returns the stored value, leaves it stored and requests no probe.
\<close>

theorem host_resolved_once:
  assumes "host self = None" "\<exists>c\<in>set (deployment_url self). c \<noteq> CHR ''/''"
  shows "\<exists>h. fst (graylog_host first_net self) = h \<and>
           host (snd (graylog_host first_net self)) = Some h \<and>
           fst (graylog_host next_net (later_calls nets (snd (graylog_host first_net self)))) = h \<and>
           host (snd (graylog_host next_net (later_calls nets (snd (graylog_host first_net self))))) = Some h \<and>
           probed (snd (graylog_host next_net (later_calls nets (snd (graylog_host first_net self))))) =
             probed (snd (graylog_host first_net self))"
proof -
  from graylog_host_resolves [OF assms, of first_net] obtain h where
    h: "h \<noteq> []" "fst (graylog_host first_net self) = h"
       "host (snd (graylog_host first_net self)) = Some h"
    by blast
  let ?s1 = "snd (graylog_host first_net self)"
  from later_calls_cached [OF h(3) h(1), of nets]
  have l: "host (later_calls nets ?s1) = Some h" "probed (later_calls nets ?s1) = probed ?s1"
    by simp_all
  from graylog_host_cached_frame [OF l(1) h(1), of next_net] l(2) h
  show ?thesis
    by (intro exI [of _ h]) simp
qed

theorem host_resolved_once_witness:
  "fst (graylog_host (\<lambda>_. SSLError) (fresh_attrs ''graylog.local:9000'')) = ''http://graylog.local:9000'' \<and>
   fst (graylog_host (\<lambda>_. Answered)
     (later_calls [\<lambda>_. Answered, \<lambda>_. OtherError ''down'']
        (snd (graylog_host (\<lambda>_. SSLError) (fresh_attrs ''graylog.local:9000''))))) =
     ''http://graylog.local:9000'' \<and>
   probed (snd (graylog_host (\<lambda>_. Answered)
     (later_calls [\<lambda>_. Answered, \<lambda>_. OtherError ''down'']
        (snd (graylog_host (\<lambda>_. SSLError) (fresh_attrs ''graylog.local:9000'')))))) =
     [''https://graylog.local:9000'']"
proof -
  have 1: "graylog_host (\<lambda>_. SSLError) (fresh_attrs ''graylog.local:9000'') =
      (''http://graylog.local:9000'',
       \<lparr> deployment_url = ''graylog.local:9000'', verify = True,
         host = Some ''http://graylog.local:9000'',
         logged = [(''debug'', ''Fetching Graylog host''), (''debug'', ''Trying HTTPS''),
                   (''warning'', ''SSL error encountered, falling back to HTTP'')],
         probed = [''https://graylog.local:9000''] \<rparr>)"
    by (simp add: graylog_host_def fresh_attrs_def logger_def truthy_def get_or_def
        startswith_def Let_def)
  from host_resolved_once [of "fresh_attrs ''graylog.local:9000''" "\<lambda>_. SSLError"
      "\<lambda>_. Answered" "[\<lambda>_. Answered, \<lambda>_. OtherError ''down'']"]
  show ?thesis
    unfolding 1 by (simp add: fresh_attrs_def)
qed

lemma version_probe_failure_aux:
  assumes "\<forall>u. (\<exists>m. http_get u = Raised m) \<or> (\<exists>st b js. http_get u = Reply st b js \<and> st \<noteq> 200)"
  shows "fst (priv_get_graylog_version urljoin https_get http_get self) = None \<and>
         logged (snd (priv_get_graylog_version urljoin https_get http_get self)) =
           logged (snd (priv_get_url urljoin https_get [] (logger ''info'' ''Getting graylog version info'' self)))
             @ [(''error'', ''Error while getting Graylog Version'')]"
proof -
  obtain url s where u: "priv_get_url urljoin https_get [] (logger ''info'' ''Getting graylog version info'' self) = (url, s)"
    by (cases "priv_get_url urljoin https_get [] (logger ''info'' ''Getting graylog version info'' self)")
  from assms have "(\<exists>m. http_get url = Raised m) \<or> (\<exists>st b js. http_get url = Reply st b js \<and> st \<noteq> 200)"
    by blast
  then show ?thesis
    by (auto simp: priv_get_graylog_version_def Let_def u logger_simps)
qed

subsection \<open>A failed version probe\<close>

text \<open>
  C5. When the request of the version probe raises or is answered with a status other
  than 200, \<^verbatim>\<open>__get_graylog_version\<close> does not raise: it logs the error and returns
  \<^verbatim>\<open>None\<close>. \<^verbatim>\<open>__init__\<close> then evaluates \<^verbatim>\<open>.startswith("4")\<close> on that absent value, which
  is an \<^verbatim>\<open>AttributeError\<close>, so the construction of the provider fails with it.
\<close>

theorem version_probe_failure:
  assumes "\<forall>u. (\<exists>m. http_get u = Raised m) \<or> (\<exists>st b js. http_get u = Reply st b js \<and> st \<noteq> 200)"
  shows "fst (priv_get_graylog_version urljoin https_get http_get self) = None \<and>
         last (logged (snd (priv_get_graylog_version urljoin https_get http_get self))) =
           (''error'', ''Error while getting Graylog Version'') \<and>
         attr_startswith (fst (priv_get_graylog_version urljoin https_get http_get self)) ''4'' =
           Inl AttributeError \<and>
         init urljoin https_get http_get url tls = Inl AttributeError"
proof -
  have "init urljoin https_get http_get url tls = Inl AttributeError"
    using version_probe_failure_aux [OF assms, where urljoin = urljoin and https_get = https_get
        and self = "\<lparr> deployment_url = url, verify = tls, host = None, logged = [], probed = [] \<rparr>"]
    by (simp add: init_def Let_def split_beta attr_startswith_def and_then_simps)
  with version_probe_failure_aux [OF assms, where urljoin = urljoin and https_get = https_get
      and self = self] show ?thesis
    by (simp add: attr_startswith_def)
qed

theorem version_probe_failure_witness:
  "fst (priv_get_graylog_version sample_urljoin (\<lambda>_. Answered) failing_root (fresh_attrs ''https://graylog.local'')) = None \<and>
   last (logged (snd (priv_get_graylog_version sample_urljoin (\<lambda>_. Answered) failing_root
       (fresh_attrs ''https://graylog.local'')))) = (''error'', ''Error while getting Graylog Version'') \<and>
   init sample_urljoin (\<lambda>_. Answered) failing_root ''https://graylog.local'' True = Inl AttributeError"
  using version_probe_failure [where http_get = failing_root and https_get = "\<lambda>_. Answered"
      and urljoin = sample_urljoin and self = "fresh_attrs ''https://graylog.local''"
      and url = "''https://graylog.local''" and tls = True]
  by (simp add: failing_root_def)

lemma split_acc_nonempty: "split_acc sep cur s \<noteq> []"
  by (induction sep cur s rule: split_acc.induct) auto

lemma split_acc_no_occurrence:
  assumes "\<not> sublist sep s"
  shows "split_acc sep cur s = [cur @ s]"
  using assms
proof (induction s arbitrary: cur)
  case Nil
  then show ?case by simp
next
  case (Cons c cs)
  have "\<not> prefix sep (c # cs)" using Cons.prems by (auto dest: prefix_imp_sublist)
  moreover have "\<not> sublist sep cs" using Cons.prems by (auto simp: sublist_Cons_right)
  ultimately show ?case using Cons.IH [of "cur @ [c]"] by simp
qed

lemma split_acc_last:
  assumes "borderless sep" "sep \<noteq> []" "s = a @ sep @ b" "\<not> sublist sep b"
  shows "last (split_acc sep cur s) = b"
  using assms(3)
proof (induction s arbitrary: a cur rule: length_induct)
  case (1 s)
  from 1(2) assms(2) obtain c cs where s: "s = c # cs"
    by (metis append_is_Nil_conv neq_Nil_conv)
  show ?case
  proof (cases "prefix sep s")
    case True
    then obtain s' where s': "s = sep @ s'" by (auto simp: prefix_def)
    have "drop (length sep) (c # cs) = s'" using s s' by (metis append_eq_conv_conj)
    then have step: "split_acc sep cur s = cur # split_acc sep [] s'"
      using True assms(2) s by simp
    have "last (split_acc sep [] s') = b"
    proof (cases "length a < length sep")
      case short: True
      have "a = []"
      proof (rule ccontr)
        assume "a \<noteq> []"
        from 1(2) s' have eq: "sep @ s' = a @ sep @ b" by simp
        have "take (length a) (sep @ s') = take (length a) (a @ sep @ b)" using eq by simp
        with short have a_pre: "a = take (length a) sep" by simp
        define r where "r = drop (length a) sep"
        have r: "sep = a @ r" using a_pre unfolding r_def by (metis append_take_drop_id)
        have rlen: "length r = length sep - length a" by (simp add: r_def)
        from eq r have "a @ r @ s' = a @ sep @ b" by simp
        then have "r @ s' = sep @ b" by simp
        then have "take (length r) (r @ s') = take (length r) (sep @ b)" by simp
        then have "r = take (length r) sep" using rlen by simp
        moreover have "r = drop (length sep - length r) sep"
          using rlen short by (simp add: r_def)
        moreover have "length r \<in> set [1 ..< length sep]"
        proof -
          have "0 < length a" using \<open>a \<noteq> []\<close> by simp
          with rlen short have "1 \<le> length r \<and> length r < length sep" by arith
          then show ?thesis by simp
        qed
        ultimately show False
          using assms(1) unfolding borderless_def list_all_iff by metis
      qed
      with 1(2) s' have "s' = b" by simp
      with assms(4) show ?thesis by (simp add: split_acc_no_occurrence)
    next
      case long: False
      from 1(2) s' have eq: "sep @ s' = a @ sep @ b" by simp
      with long obtain a' where "a = sep @ a'"
        by (metis append_eq_append_conv_if append_take_drop_id not_less)
      with eq have "s' = a' @ sep @ b" by simp
      moreover have "length s' < length s" using s' assms(2) by simp
      ultimately show ?thesis using 1(1) by blast
    qed
    with step show ?thesis by (simp add: split_acc_nonempty)
  next
    case False
    then have "a \<noteq> []" using 1(2) by auto
    then obtain a' where a: "a = c # a'" using 1(2) s by (cases a) auto
    then have cs: "cs = a' @ sep @ b" using 1(2) s by simp
    have "split_acc sep cur s = split_acc sep (cur @ [c]) cs"
      using False s by simp
    moreover have "length cs < length s" using s by simp
    with 1(1) cs have "last (split_acc sep (cur @ [c]) cs) = b" by blast
    ultimately show ?thesis by simp
  qed
qed

lemma borderless_provider_id: "borderless ''provider_id=''"
  by (simp add: borderless_def upt_rec)

lemma expect_answer_authorized:
  assumes "authorized b"
  shows "expect code (answer req serve nb) b =
     (case serve (b \<lparr> received := received b @ [req] \<rparr>) of
        (Raised msg, b') \<Rightarrow> (Inl (ConnectionFailed msg), b')
      | (Reply status_code body js, b') \<Rightarrow>
          (if status_code \<noteq> code then Inl (HttpFailure body) else Inr js, b'))"
  using assms by (simp add: expect_def answer_def Let_def)

lemma expect_answer_unauthorized:
  assumes "\<not> authorized b" "code \<noteq> 401"
  shows "expect code (answer req serve nb) b =
     (Inl (HttpFailure ''Unauthorized''), b \<lparr> received := received b @ [req] \<rparr>)"
  using assms by (simp add: expect_def answer_def Let_def)

lemma priv_get_events_ok:
  assumes "authorized b"
  shows "priv_get_events page per_page b =
     (Inr \<lparr> dp_event_definitions = page_of page per_page (stored_definitions b),
             dp_total = int (length (stored_definitions b)) \<rparr>,
      b \<lparr> received := received b @ [Get_events_definitions page per_page] \<rparr>)"
  using assms
  by (simp add: priv_get_events_def get_events_definitions_def expect_answer_authorized)

lemma more_events_ok:
  assumes "authorized b"
  shows "more_events pages acc b =
     (Inr (acc @ concat (map (\<lambda>p. page_of p 100 (stored_definitions b)) pages)),
      b \<lparr> received := received b @ map (\<lambda>p. Get_events_definitions p 100) pages \<rparr>)"
  using assms
proof (induction pages arbitrary: acc b)
  case Nil
  then show ?case by (simp add: ret_def)
next
  case (Cons p pages)
  show ?case
    using Cons.prems
    by (simp add: then_do_def priv_get_events_ok Cons.IH)
qed

lemma collect_event_definitions_ok:
  assumes "authorized b"
  shows "collect_event_definitions b =
     (Inr (concat (map (\<lambda>p. page_of p 100 (stored_definitions b))
             (1 # [2 .. ceil_div (int (length (stored_definitions b))) 100 - 1]))),
      b \<lparr> received := received b @ map (\<lambda>p. Get_events_definitions p 100)
             (1 # [2 .. ceil_div (int (length (stored_definitions b))) 100 - 1]) \<rparr>)"
  using assms
  by (simp add: collect_event_definitions_def then_do_def priv_get_events_ok more_events_ok)

lemma collect_single_page:
  assumes "authorized b" "length (stored_definitions b) \<le> 100"
  shows "collect_event_definitions b =
     (Inr (stored_definitions b), b \<lparr> received := received b @ [Get_events_definitions 1 100] \<rparr>)"
proof -
  have "ceil_div (int (length (stored_definitions b))) 100 \<le> 1"
    using assms(2) by (simp add: ceil_div_def)
  then have "[2 .. ceil_div (int (length (stored_definitions b))) 100 - 1] = []" by simp
  then show ?thesis
    using assms by (simp add: collect_event_definitions_ok page_of_def)
qed

lemma pages_concat:
  "concat (map (\<lambda>p. page_of p 100 xs) [1 .. int m]) = take (100 * m) xs"
proof (induction m)
  case 0
  then show ?case by simp
next
  case (Suc m)
  have "[1 .. int (Suc m)] = [1 .. int m] @ [int m + 1]"
    by (simp add: upto_rec2)
  moreover have "page_of (int m + 1) 100 xs = take 100 (drop (100 * m) xs)"
    by (simp add: page_of_def nat_mult_distrib mult.commute)
  moreover have "take (100 * Suc m) xs = take (100 * m) xs @ take 100 (drop (100 * m) xs)"
    using take_add [of "100 * m" 100 xs] by (simp add: add.commute)
  ultimately show ?case
    using Suc.IH by (simp del: mult_Suc_right)
qed

lemma ceil_div_bounds:
  shows "100 * (ceil_div n 100 - 1) < n" "n \<le> 100 * ceil_div n 100"
  unfolding ceil_div_def by presburger+

subsection \<open>Enumeration of the event definitions\<close>

text \<open>
  C3. The first page, of 100, gives the total, and the number of pages is
  \<^verbatim>\<open>ceil(total / 100)\<close>; but the loop that fetches the remaining pages is
  \<^verbatim>\<open>range(2, total_pages)\<close>, which stops before the last page. With more than 100 event
  definitions in the backend, the pages requested are those from 1 to
  \<^verbatim>\<open>total_pages - 1\<close>, and the definitions collected are the first
  \<^verbatim>\<open>100 * (total_pages - 1)\<close>, which are fewer than all.
\<close>

theorem collect_stops_before_last_page:
  assumes "authorized b" "100 < length (stored_definitions b)"
  shows "collect_event_definitions b =
     (Inr (take (100 * nat (ceil_div (int (length (stored_definitions b))) 100 - 1))
             (stored_definitions b)),
      b \<lparr> received := received b @ map (\<lambda>p. Get_events_definitions p 100)
             [1 .. ceil_div (int (length (stored_definitions b))) 100 - 1] \<rparr>) \<and>
     100 * nat (ceil_div (int (length (stored_definitions b))) 100 - 1) <
       length (stored_definitions b)"
proof -
  define k where "k = ceil_div (int (length (stored_definitions b))) 100"
  have pos: "0 < int (length (stored_definitions b))" using assms(2) by linarith
  have k2: "2 \<le> k"
    using ceil_div_bounds(2) [of "int (length (stored_definitions b))"] assms(2) unfolding k_def by linarith
  have less: "100 * (k - 1) < int (length (stored_definitions b))"
    using ceil_div_bounds(1) [of "int (length (stored_definitions b))"] unfolding k_def .
  have pages: "1 # [2 .. k - 1] = [1 .. int (nat (k - 1))]"
    using k2 by (simp add: upto_rec1 [of 1])
  have "concat (map (\<lambda>p. page_of p 100 (stored_definitions b)) (1 # [2 .. k - 1])) =
      take (100 * nat (k - 1)) (stored_definitions b)"
    unfolding pages by (rule pages_concat)
  moreover have "[1 .. int (nat (k - 1))] = [1 .. k - 1]" using k2 by simp
  moreover have "100 * nat (k - 1) < length (stored_definitions b)"
  proof -
    have "int (100 * nat (k - 1)) = 100 * (k - 1)" using k2 by simp
    with less have "int (100 * nat (k - 1)) < int (length (stored_definitions b))" by simp
    then show ?thesis by (simp only: of_nat_less_iff)
  qed
  ultimately show ?thesis
    using collect_event_definitions_ok [OF assms(1)] pages
    unfolding k_def [symmetric] by simp
qed

theorem collect_stops_before_last_page_witness:
  "length (stored_definitions (sample_backend (many_definitions 101))) = 101 \<and>
   collect_event_definitions (sample_backend (many_definitions 101)) =
     (Inr (take 100 (many_definitions 101)),
      (sample_backend (many_definitions 101)) \<lparr> received := [Get_events_definitions 1 100] \<rparr>)"
proof -
  have d: "stored_definitions (sample_backend (many_definitions 101)) = many_definitions 101"
    "authorized (sample_backend (many_definitions 101))"
    "received (sample_backend (many_definitions 101)) = []"
    by (simp_all add: sample_backend_def)
  have l: "length (many_definitions 101) = 101" by (simp add: many_definitions_def)
  have c: "ceil_div 101 100 - 1 = 1" by (simp add: ceil_div_def)
  from collect_stops_before_last_page [of "sample_backend (many_definitions 101)"]
  show ?thesis
    by (simp add: d l c)
qed

lemma list_index_last: "xs \<noteq> [] \<Longrightarrow> list_index xs (- 1) = Inr (last xs)"
  by (cases xs rule: rev_cases) (auto simp: list_index_def nth_append)

lemma frame_ret: "(\<And>b. R b b) \<Longrightarrow> frame R (ret v)"
  by (simp add: frame_def ret_def)

lemma frame_lift: "(\<And>b. R b b) \<Longrightarrow> frame R (lift r)"
  by (simp add: frame_def lift_def)

lemma frame_then_do:
  assumes "frame R m" "\<And>v. frame R (k v)" "\<And>a b c. R a b \<Longrightarrow> R b c \<Longrightarrow> R a c"
  shows "frame R (then_do m k)"
  unfolding frame_def
proof
  fix b
  obtain r b1 where m: "m b = (r, b1)" by (cases "m b")
  have 1: "R b b1" using assms(1) m by (auto simp: frame_def dest: spec [of _ b])
  show "R b (snd (then_do m k b))"
  proof (cases r)
    case (Inl e)
    then show ?thesis using m 1 by (simp add: then_do_def)
  next
    case (Inr v)
    have "R b1 (snd (k v b1))" using assms(2) [of v] by (simp add: frame_def)
    with 1 assms(3) have "R b (snd (k v b1))" by blast
    then show ?thesis using m Inr by (simp add: then_do_def)
  qed
qed

lemma frame_expect:
  assumes "\<And>b. R b (snd (send b))"
  shows "frame R (expect code send)"
  unfolding frame_def
proof
  fix b
  show "R b (snd (expect code send b))"
    using assms [of b]
    by (cases "send b") (auto simp: expect_def split: reply.splits)
qed

lemma same_whitelist_refl: "same_whitelist b b"
  by (simp add: same_whitelist_def)

lemma same_whitelist_trans: "same_whitelist a b \<Longrightarrow> same_whitelist b c \<Longrightarrow> same_whitelist a c"
  by (simp add: same_whitelist_def)

lemma answer_same_whitelist:
  assumes "\<not> is_whitelist_write req"
    and "\<And>b. stored_whitelist (snd (serve b)) = stored_whitelist b \<and> received (snd (serve b)) = received b"
  shows "same_whitelist b (snd (answer req serve nb b))"
  using assms(1) assms(2) [of "b \<lparr> received := received b @ [req] \<rparr>"]
  by (simp add: answer_def same_whitelist_def Let_def)

lemma same_whitelist_requests:
  "frame same_whitelist (priv_get_events page per_page)"
  "frame same_whitelist (priv_update_event ed)"
  "frame same_whitelist priv_get_url_whitelist"
  "frame same_whitelist (priv_get_notification page per_page name)"
  "frame same_whitelist (priv_delete_notification i)"
  "frame same_whitelist (priv_create_notification name body)"
  unfolding priv_get_events_def priv_update_event_def priv_get_url_whitelist_def
    priv_get_notification_def priv_delete_notification_def priv_create_notification_def
    get_events_definitions_def put_events_definitions_def get_system_urlwhitelist_def
    get_events_notifications_def delete_events_notifications_def post_events_notifications_def
  by (intro frame_expect answer_same_whitelist;
      simp add: is_whitelist_write_def Let_def split: list.splits)+

lemma same_whitelist_then_do:
  "frame same_whitelist m \<Longrightarrow> (\<And>v. frame same_whitelist (k v)) \<Longrightarrow> frame same_whitelist (then_do m k)"
  by (rule frame_then_do) (auto intro: same_whitelist_trans)

lemma frame_more_events:
  assumes refl: "\<And>b. R b b" and trans: "\<And>a b c. R a b \<Longrightarrow> R b c \<Longrightarrow> R a c"
    and g: "\<And>p n. frame R (priv_get_events p n)"
  shows "frame R (more_events pages acc)"
proof (induction pages arbitrary: acc)
  case Nil
  show ?case by (simp add: frame_ret [of R, OF refl])
next
  case (Cons p pages)
  show ?case
    unfolding more_events.simps
    by (rule frame_then_do [of R, OF g _ trans]) (rule Cons.IH)
qed

lemma frame_collect:
  assumes refl: "\<And>b. R b b" and trans: "\<And>a b c. R a b \<Longrightarrow> R b c \<Longrightarrow> R a c"
    and g: "\<And>p n. frame R (priv_get_events p n)"
  shows "frame R collect_event_definitions"
  unfolding collect_event_definitions_def
  by (rule frame_then_do [of R, OF g _ trans]) (rule frame_more_events [of R, OF refl trans g])

lemma frame_update_events:
  assumes refl: "\<And>b. R b b" and trans: "\<And>a b c. R a b \<Longrightarrow> R b c \<Longrightarrow> R a c"
    and u: "\<And>ed. frame R (priv_update_event ed)"
  shows "frame R (update_events v4 existing new_id eds)"
proof (induction eds)
  note td = frame_then_do [of R, OF _ _ trans]
  note r = frame_ret [of R, OF refl]
  note l = frame_lift [of R, OF refl]
  case Nil
  show ?case by (simp add: r)
next
  note td = frame_then_do [of R, OF _ _ trans]
  note r = frame_ret [of R, OF refl]
  note l = frame_lift [of R, OF refl]
  case (Cons ed eds)
  have 1: "frame R (if v4 then ret False
              else then_do (lift (subscript ''_scope'' (ed_scope ed))) (\<lambda>scope.
                     ret (scope = ''SYSTEM_NOTIFICATION_EVENT'')))"
    by (simp add: r td l)
  have 2: "\<And>skip. frame R (if skip then ret ()
              else priv_update_event (rebind existing new_id ed))"
    by (simp add: r u)
  show ?case
    unfolding update_events.simps
    by (rule td [OF 1], rule td [OF 2], rule Cons.IH)
qed

lemma frame_replace_notification:
  assumes refl: "\<And>b. R b b" and trans: "\<And>a b c. R a b \<Longrightarrow> R b c \<Longrightarrow> R a c"
    and g: "\<And>p n. frame R (priv_get_notification p n name)"
    and d: "\<And>i. frame R (priv_delete_notification i)"
    and c: "frame R (priv_create_notification name (notification_body_of v4 name url key))"
  shows "frame R (replace_notification v4 name url key)"
proof -
  note td = frame_then_do [of R, OF _ _ trans]
  note r = frame_ret [of R, OF refl]
  note l = frame_lift [of R, OF refl]
  have 1: "\<And>notification. frame R (if np_count notification > 0 then
                then_do (lift (list_index (np_notifications notification) 0)) (\<lambda>n.
                then_do (priv_delete_notification (n_id n)) (\<lambda>_. ret (Some (n_id n))))
              else ret None)"
    by (simp add: td r l d)
  show ?thesis
    unfolding replace_notification_def
    by (rule td [OF g], rule td [OF 1], rule td [OF c], rule td [OF l], rule r)
qed

lemma frame_rest_same_whitelist:
  "frame same_whitelist
     (then_do (replace_notification v4 name url key) (\<lambda>(existing, new_id).
        update_events v4 existing new_id eds))"
proof (rule same_whitelist_then_do)
  show "frame same_whitelist (replace_notification v4 name url key)"
    by (rule frame_replace_notification [OF same_whitelist_refl same_whitelist_trans])
       (simp_all add: same_whitelist_requests)
next
  fix v :: "string option \<times> string"
  have "frame same_whitelist (update_events v4 (fst v) (snd v) eds)"
    by (rule frame_update_events [OF same_whitelist_refl same_whitelist_trans])
       (simp_all add: same_whitelist_requests)
  then show "frame same_whitelist (case v of (existing, new_id) \<Rightarrow>
        update_events v4 existing new_id eds)"
    by (simp add: split_beta)
qed

lemma then_do_lift_Inr: "then_do (lift (Inr v)) k = k v"
  by (rule ext) (simp add: then_do_def lift_def)

lemma priv_get_url_whitelist_ok:
  assumes "authorized b"
  shows "priv_get_url_whitelist b =
     (Inr (stored_whitelist b), b \<lparr> received := received b @ [Get_system_urlwhitelist] \<rparr>)"
  using assms
  by (simp add: priv_get_url_whitelist_def get_system_urlwhitelist_def expect_answer_authorized)

lemma priv_update_url_whitelist_ok:
  assumes "authorized b"
  shows "priv_update_url_whitelist wl b =
     (Inr (), b \<lparr> received := received b @ [Put_system_urlwhitelist wl], stored_whitelist := wl \<rparr>)"
  using assms
  by (simp add: priv_update_url_whitelist_def put_system_urlwhitelist_def expect_answer_authorized)

lemma whitelist_url_ok:
  assumes "authorized b"
  shows "whitelist_url uuid name url b =
     (Inr (),
      if list_ex (\<lambda>entry. we_value entry = url) (wl_entries (stored_whitelist b))
      then b \<lparr> received := received b @ [Get_system_urlwhitelist] \<rparr>
      else b \<lparr> received := received b @ [Get_system_urlwhitelist,
                   Put_system_urlwhitelist ((stored_whitelist b) \<lparr> wl_entries :=
                     wl_entries (stored_whitelist b) @
                       [\<lparr> we_id = uuid, we_title = name, we_value = url, we_type = ''literal'' \<rparr>] \<rparr>)],
               stored_whitelist := (stored_whitelist b) \<lparr> wl_entries :=
                     wl_entries (stored_whitelist b) @
                       [\<lparr> we_id = uuid, we_title = name, we_value = url, we_type = ''literal'' \<rparr>] \<rparr> \<rparr>)"
  using assms
  by (simp add: whitelist_url_def then_do_def priv_get_url_whitelist_ok
      priv_update_url_whitelist_ok ret_def)

lemma no_whitelist_write_in_gets:
  "filter is_whitelist_write (map (\<lambda>p. Get_events_definitions p n) ps) = []"
  by (induction ps) (simp_all add: is_whitelist_write_def)

subsection \<open>The whitelist\<close>

text \<open>
  C8. \<^verbatim>\<open>setup_webhook\<close> against a backend that accepts the token. The URL looked for in
  the whitelist is the callback URL as the notification will use it (on a v4 backend, with
  \<^verbatim>\<open>&api_key=...\<close> appended). When an entry of the whitelist has exactly this value, the
  stored whitelist is left as it is and the call issues no request that writes it.
  Otherwise one entry of type \<^verbatim>\<open>literal\<close> with this value is appended, and the call issues
  exactly one request that writes the whitelist, which carries the whole list.
\<close>

theorem whitelist_upsert:
  assumes "authorized b" "notification_name_of urlparse keep_api_url = Inr name"
    and "url = (if v4 then keep_api_url @ ''&api_key='' @ api_key else keep_api_url)"
    and "b' = snd (setup_webhook urlparse v4 uuid tenant_id keep_api_url api_key b)"
    and "appended = (stored_whitelist b) \<lparr> wl_entries := wl_entries (stored_whitelist b) @
            [\<lparr> we_id = uuid, we_title = name, we_value = url, we_type = ''literal'' \<rparr>] \<rparr>"
  shows "if list_ex (\<lambda>entry. we_value entry = url) (wl_entries (stored_whitelist b))
         then stored_whitelist b' = stored_whitelist b \<and>
              filter is_whitelist_write (received b') = filter is_whitelist_write (received b)
         else stored_whitelist b' = appended \<and>
              filter is_whitelist_write (received b') =
                filter is_whitelist_write (received b) @ [Put_system_urlwhitelist appended]"
proof -
  define b1 where "b1 = snd (collect_event_definitions b)"
  obtain eds where c: "collect_event_definitions b = (Inr eds, b1)"
    unfolding b1_def using collect_event_definitions_ok [OF assms(1)] by simp
  have b1: "authorized b1" "stored_whitelist b1 = stored_whitelist b"
      "filter is_whitelist_write (received b1) = filter is_whitelist_write (received b)"
    unfolding b1_def using collect_event_definitions_ok [OF assms(1)] assms(1)
      no_whitelist_write_in_gets [of 100 "1 # [2 .. ceil_div (int (length (stored_definitions b))) 100 - 1]"]
    by simp_all
  define b2 where "b2 = snd (whitelist_url uuid name url b1)"
  have w: "whitelist_url uuid name url b1 = (Inr (), b2)"
    unfolding b2_def using whitelist_url_ok [OF b1(1)] by simp
  define rest where "rest = then_do (replace_notification v4 name url api_key)
      (\<lambda>(existing, new_id). update_events v4 existing new_id eds)"
  have run: "b' = snd (rest b2)"
    unfolding assms(4) setup_webhook_def assms(2) then_do_lift_Inr Let_def rest_def
    using c w assms(3) by (simp add: then_do_def)
  have "same_whitelist b2 (snd (rest b2))"
    using frame_rest_same_whitelist [of v4 name url api_key eds]
    unfolding rest_def frame_def by blast
  then have keep: "stored_whitelist b' = stored_whitelist b2"
    "filter is_whitelist_write (received b') = filter is_whitelist_write (received b2)"
    unfolding run same_whitelist_def by simp_all
  show ?thesis
  proof (cases "list_ex (\<lambda>entry. we_value entry = url) (wl_entries (stored_whitelist b))")
    case True
    then have "stored_whitelist b2 = stored_whitelist b"
      "filter is_whitelist_write (received b2) = filter is_whitelist_write (received b)"
      unfolding b2_def using whitelist_url_ok [OF b1(1), of uuid name url] b1
      by (simp_all add: is_whitelist_write_def)
    with keep True show ?thesis by simp
  next
    case False
    then have "stored_whitelist b2 = appended"
      "filter is_whitelist_write (received b2) =
         filter is_whitelist_write (received b) @ [Put_system_urlwhitelist appended]"
      unfolding b2_def assms(5) using whitelist_url_ok [OF b1(1), of uuid name url] b1
      by (simp_all add: is_whitelist_write_def)
    with keep False show ?thesis by simp
  qed
qed

lemma priv_get_notification_ok:
  assumes "authorized b"
  shows "priv_get_notification page per_page name b =
     (Inr \<lparr> np_count = int (length (page_of page per_page
                 (filter (\<lambda>n. nb_title n = name) (stored_notifications b)))),
             np_notifications = page_of page per_page
                 (filter (\<lambda>n. nb_title n = name) (stored_notifications b)) \<rparr>,
      b \<lparr> received := received b @ [Get_events_notifications page per_page (''title:'' @ name)] \<rparr>)"
  using assms
  by (simp add: priv_get_notification_def get_events_notifications_def expect_answer_authorized
      Let_def)

lemma priv_delete_notification_ok:
  assumes "authorized b" "i \<in> set (map n_id (stored_notifications b))"
  shows "priv_delete_notification i b =
     (Inr (), b \<lparr> received := received b @ [Delete_events_notifications i],
                  stored_notifications := filter (\<lambda>n. n_id n \<noteq> i) (stored_notifications b) \<rparr>)"
  using assms
  by (simp add: priv_delete_notification_def delete_events_notifications_def
      expect_answer_authorized)

lemma priv_create_notification_ok:
  assumes "authorized b" "unused_ids b = i # ids"
  shows "priv_create_notification name body b =
     (Inr (Some (notification_body.extend body \<lparr> n_id = i \<rparr>)),
      b \<lparr> received := received b @ [Post_events_notifications body],
          stored_notifications := stored_notifications b @ [notification_body.extend body \<lparr> n_id = i \<rparr>],
          unused_ids := ids \<rparr>)"
  using assms
  by (simp add: priv_create_notification_def post_events_notifications_def
      expect_answer_authorized Let_def)

lemma priv_update_event_ok:
  assumes "authorized b" "ed_id ed \<in> set (map ed_id (stored_definitions b))"
  shows "priv_update_event ed b =
     (Inr (), b \<lparr> received := received b @ [Put_events_definitions ed],
                  stored_definitions :=
                    map (\<lambda>d. if ed_id d = ed_id ed then ed else d) (stored_definitions b) \<rparr>)"
  using assms
  by (simp add: priv_update_event_def put_events_definitions_def expect_answer_authorized)

lemma n_id_extend: "n_id (notification_body.extend body \<lparr> n_id = i \<rparr>) = i"
  by (simp add: notification_body.extend_def)

lemma nb_title_extend: "nb_title (notification_body.extend body \<lparr> n_id = i \<rparr>) = nb_title body"
  by (simp add: notification_body.extend_def)

lemma replace_notification_ok:
  assumes "authorized b" "unused_ids b = i # ids"
    and ex_def: "ex = (case filter (\<lambda>n. nb_title n = name) (stored_notifications b) of
                    [] \<Rightarrow> None | n # _ \<Rightarrow> Some (n_id n))"
  shows "\<exists>b'. replace_notification v4 name url key b = (Inr (ex, i), b') \<and>
           authorized b' \<and> unused_ids b' = ids \<and>
           stored_definitions b' = stored_definitions b \<and>
           stored_notifications b' =
             filter (\<lambda>n. Some (n_id n) \<noteq> ex) (stored_notifications b) @
               [notification_body.extend (notification_body_of v4 name url key) \<lparr> n_id = i \<rparr>]"
proof (cases "filter (\<lambda>n. nb_title n = name) (stored_notifications b)")
  case Nil
  then have ex: "ex = None" by (simp add: ex_def)
  show ?thesis
    using assms(1,2) Nil
    by (simp add: replace_notification_def then_do_def priv_get_notification_ok page_of_def
        ret_def ex priv_create_notification_ok lift_def subscript_simps n_id_extend)
next
  case (Cons n ns)
  then have ex: "ex = Some (n_id n)" by (simp add: ex_def)
  have "n \<in> set (filter (\<lambda>n. nb_title n = name) (stored_notifications b))"
    using Cons by simp
  then have mem: "n_id n \<in> set (map n_id (stored_notifications b))" by auto
  show ?thesis
    using assms(1,2) Cons mem
    by (simp add: replace_notification_def then_do_def priv_get_notification_ok page_of_def
        ret_def ex priv_create_notification_ok priv_delete_notification_ok lift_def
        subscript_simps n_id_extend list_index_def)
qed

lemma rebound_keeps:
  "ed_id (rebound v4 ex new ed) = ed_id ed"
  "ed_scope (rebound v4 ex new ed) = ed_scope ed"
  "skipped v4 (rebound v4 ex new ed) = skipped v4 ed"
  by (simp_all add: rebound_def rebind_def skipped_def)

lemma put_rebound_ids: "map ed_id (put_rebound v4 ex new ds ed) = map ed_id ds"
  by (simp add: put_rebound_def rebind_def comp_def)

lemma update_events_ok:
  assumes "authorized b"
    and "\<forall>ed\<in>set eds. ed_id ed \<in> set (map ed_id (stored_definitions b))"
    and "v4 \<or> (\<forall>ed\<in>set eds. ed_scope ed \<noteq> None)"
  shows "\<exists>b'. update_events v4 ex new eds b = (Inr (), b') \<and>
           authorized b' \<and> unused_ids b' = unused_ids b \<and>
           stored_notifications b' = stored_notifications b \<and>
           stored_definitions b' = foldl (put_rebound v4 ex new) (stored_definitions b) eds"
  using assms
proof (induction eds arbitrary: b)
  case Nil
  then show ?case by (simp add: ret_def)
next
  case (Cons ed eds)
  have scope: "v4 \<or> (\<exists>s. ed_scope ed = Some s)" using Cons.prems(3) by auto
  show ?case
  proof (cases "skipped v4 ed")
    case True
    then have step: "update_events v4 ex new (ed # eds) b = update_events v4 ex new eds b"
      by (auto simp: skipped_def then_do_def ret_def lift_def subscript_simps)
    have pre: "authorized b" "\<forall>ed\<in>set eds. ed_id ed \<in> set (map ed_id (stored_definitions b))"
      "v4 \<or> (\<forall>ed\<in>set eds. ed_scope ed \<noteq> None)"
      using Cons.prems by auto
    from Cons.IH [OF pre] True show ?thesis
      unfolding step by (simp add: put_rebound_def)
  next
    case False
    define b1 where "b1 = b \<lparr> received := received b @ [Put_events_definitions (rebind ex new ed)],
        stored_definitions := put_rebound v4 ex new (stored_definitions b) ed \<rparr>"
    have "ed_id (rebind ex new ed) \<in> set (map ed_id (stored_definitions b))"
      using Cons.prems(2) by (simp add: rebind_def)
    from priv_update_event_ok [OF Cons.prems(1) this]
    have put: "priv_update_event (rebind ex new ed) b = (Inr (), b1)"
      using False by (simp add: b1_def put_rebound_def rebind_def)
    have step: "update_events v4 ex new (ed # eds) b = update_events v4 ex new eds b1"
      using False scope put
      by (auto simp: skipped_def then_do_def ret_def lift_def subscript_simps)
    have ids: "map ed_id (stored_definitions b1) = map ed_id (stored_definitions b)"
      by (simp add: b1_def put_rebound_ids)
    have pre: "authorized b1" "\<forall>ed\<in>set eds. ed_id ed \<in> set (map ed_id (stored_definitions b1))"
      "v4 \<or> (\<forall>ed\<in>set eds. ed_scope ed \<noteq> None)"
      using Cons.prems unfolding ids by (auto simp: b1_def)
    from Cons.IH [OF pre] show ?thesis
      unfolding step by (simp add: b1_def)
  qed
qed

lemma foldl_put_rebound:
  assumes "distinct (map ed_id (pre @ suf))"
  shows "foldl (put_rebound v4 ex new) (map (rebound v4 ex new) pre @ suf) suf =
         map (rebound v4 ex new) (pre @ suf)"
  using assms
proof (induction suf arbitrary: pre)
  case Nil
  then show ?case by simp
next
  case (Cons ed suf)
  have notin: "ed_id ed \<notin> set (map ed_id pre)" "ed_id ed \<notin> set (map ed_id suf)"
    using Cons.prems by auto
  have 1: "map (\<lambda>d. if ed_id d = ed_id ed then rebind ex new ed else d) (map (rebound v4 ex new) pre) =
      map (rebound v4 ex new) pre"
    using notin(1) by (induction pre) (auto simp: rebound_keeps)
  have 2: "map (\<lambda>d. if ed_id d = ed_id ed then rebind ex new ed else d) suf = suf"
    using notin(2) by (induction suf) auto
  have re: "rebound v4 ex new ed = (if skipped v4 ed then ed else rebind ex new ed)"
    by (simp add: rebound_def)
  have "put_rebound v4 ex new (map (rebound v4 ex new) pre @ ed # suf) ed =
      map (rebound v4 ex new) (pre @ [ed]) @ suf"
    using notin by (auto simp: put_rebound_def 2 re rebound_keeps image_iff)
  moreover have "distinct (map ed_id ((pre @ [ed]) @ suf))" using Cons.prems by simp
  ultimately show ?case
    using Cons.IH [of "pre @ [ed]"] by simp
qed

lemma setup_webhook_run:
  assumes auth: "authorized b"
    and page: "length (stored_definitions b) \<le> 100"
    and dist: "distinct (map ed_id (stored_definitions b))"
    and scopes: "v4 \<or> (\<forall>ed\<in>set (stored_definitions b). ed_scope ed \<noteq> None)"
    and ids: "unused_ids b = i # ids"
    and name: "notification_name_of urlparse keep_api_url = Inr name"
    and ex: "ex = (case filter (\<lambda>n. nb_title n = name) (stored_notifications b) of
                     [] \<Rightarrow> None | n # _ \<Rightarrow> Some (n_id n))"
    and url: "url = (if v4 then keep_api_url @ ''&api_key='' @ api_key else keep_api_url)"
  shows "\<exists>b'. setup_webhook urlparse v4 uuid tenant_id keep_api_url api_key b = (Inr (), b') \<and>
           authorized b' \<and> unused_ids b' = ids \<and>
           stored_definitions b' = map (rebound v4 ex i) (stored_definitions b) \<and>
           stored_notifications b' =
             filter (\<lambda>n. Some (n_id n) \<noteq> ex) (stored_notifications b) @
               [notification_body.extend (notification_body_of v4 name url api_key) \<lparr> n_id = i \<rparr>]"
proof -
  define b1 where "b1 = b \<lparr> received := received b @ [Get_events_definitions 1 100] \<rparr>"
  have c: "collect_event_definitions b = (Inr (stored_definitions b), b1)"
    unfolding b1_def by (rule collect_single_page [OF auth page])
  have b1: "authorized b1" "unused_ids b1 = i # ids" "stored_definitions b1 = stored_definitions b"
    "stored_notifications b1 = stored_notifications b"
    using auth ids by (simp_all add: b1_def)
  define b2 where "b2 = snd (whitelist_url uuid name url b1)"
  have w: "whitelist_url uuid name url b1 = (Inr (), b2)"
    unfolding b2_def using whitelist_url_ok [OF b1(1)] by simp
  have b2: "authorized b2" "unused_ids b2 = i # ids" "stored_definitions b2 = stored_definitions b"
    "stored_notifications b2 = stored_notifications b"
    unfolding b2_def using whitelist_url_ok [OF b1(1), of uuid name url] b1 by simp_all
  have ex2: "ex = (case filter (\<lambda>n. nb_title n = name) (stored_notifications b2) of
                     [] \<Rightarrow> None | n # _ \<Rightarrow> Some (n_id n))"
    using ex b2(4) by simp
  from replace_notification_ok [OF b2(1) b2(2) ex2, of v4 url api_key] obtain b3 where
    r: "replace_notification v4 name url api_key b2 = (Inr (ex, i), b3)"
    and b3: "authorized b3" "unused_ids b3 = ids" "stored_definitions b3 = stored_definitions b"
      "stored_notifications b3 =
         filter (\<lambda>n. Some (n_id n) \<noteq> ex) (stored_notifications b) @
           [notification_body.extend (notification_body_of v4 name url api_key) \<lparr> n_id = i \<rparr>]"
    using b2 by auto
  have mem: "\<forall>ed\<in>set (stored_definitions b). ed_id ed \<in> set (map ed_id (stored_definitions b3))"
    using b3(3) by simp
  from update_events_ok [OF b3(1) mem scopes, of ex i] obtain b4 where
    u: "update_events v4 ex i (stored_definitions b) b3 = (Inr (), b4)"
    and b4: "authorized b4" "unused_ids b4 = unused_ids b3"
      "stored_notifications b4 = stored_notifications b3"
      "stored_definitions b4 = foldl (put_rebound v4 ex i) (stored_definitions b3) (stored_definitions b)"
    by auto
  have "foldl (put_rebound v4 ex i) (stored_definitions b) (stored_definitions b) =
      map (rebound v4 ex i) (stored_definitions b)"
    using foldl_put_rebound [of "[]" "stored_definitions b" v4 ex i] dist by simp
  then have defs: "stored_definitions b4 = map (rebound v4 ex i) (stored_definitions b)"
    using b4(4) b3(3) by simp
  have run: "setup_webhook urlparse v4 uuid tenant_id keep_api_url api_key b = (Inr (), b4)"
    unfolding setup_webhook_def name then_do_lift_Inr Let_def url [symmetric]
    by (simp add: then_do_def c w r u)
  show ?thesis
    using run b4(1,2,3) b3(2,4) defs by auto
qed

lemma no_titled_left:
  assumes "length (filter P ns) \<le> 1"
    and "ex = (case filter P ns of [] \<Rightarrow> None | n # _ \<Rightarrow> Some (n_id n))"
  shows "filter P (filter (\<lambda>n. Some (n_id n) \<noteq> ex) ns) = []"
proof -
  have "filter P (filter (\<lambda>n. Some (n_id n) \<noteq> ex) ns) =
      filter (\<lambda>n. Some (n_id n) \<noteq> ex) (filter P ns)"
    by (simp add: conj_commute)
  also have "\<dots> = []"
  proof (cases "filter P ns")
    case Nil
    then show ?thesis by simp
  next
    case (Cons n rest)
    with assms(1) have "rest = []" by simp
    with Cons assms(2) show ?thesis by simp
  qed
  finally show ?thesis .
qed

lemma count_after_two_rebinds:
  assumes "i2 \<notin> set (ed_notifications d)" "i1 \<noteq> i2"
  shows "count_list (ed_notifications (rebind (Some i1) i2 (rebind ex i1 d))) i2 = 1"
proof -
  define X where "X = (case ex of None \<Rightarrow> ed_notifications d | Some e \<Rightarrow> remove1 e (ed_notifications d))"
  have "set X \<subseteq> set (ed_notifications d)"
    using set_remove1_subset by (fastforce simp: X_def split: option.splits)
  then have "i2 \<notin> set (X @ [i1])" using assms by auto
  then have "i2 \<notin> set (remove1 i1 (X @ [i1]))"
    by (meson notin_set_remove1)
  then have "count_list (remove1 i1 (X @ [i1])) i2 = 0"
    by (rule count_list_0_iff [THEN iffD2])
  moreover have "ed_notifications (rebind (Some i1) i2 (rebind ex i1 d)) =
      remove1 i1 (X @ [i1]) @ [i2]"
  proof -
    define r where "r = rebind ex i1 d"
    have 1: "ed_notifications r = X @ [i1]" by (simp add: r_def rebind_def X_def)
    have "ed_notifications (rebind (Some i1) i2 r) = remove1 i1 (ed_notifications r) @ [i2]"
      by (simp add: rebind_def)
    then show ?thesis by (simp only: 1) (simp only: r_def)
  qed
  ultimately show ?thesis
    by (simp only: count_list_append count_list.simps) simp
qed

subsection \<open>Running the setup twice\<close>

text \<open>
  C1 (as amended). The backend accepts the token, holds at most 100 event definitions
  (one page), with distinct ids and, unless it is a v4 backend, each with the key
  \<^verbatim>\<open>_scope\<close>; at most one of its notifications has the derived title; and the next two
  ids it hands out differ and are referenced by no event definition. Then two calls of
  \<^verbatim>\<open>setup_webhook\<close> in succession, for the same tenant, callback URL and API key, both
  succeed and leave exactly one notification with the derived title, the one created by
  the second call; and every event definition that the setup rebinds (all of them on a
  v4 backend, and otherwise those whose \<^verbatim>\<open>_scope\<close> is not
  \<^verbatim>\<open>SYSTEM_NOTIFICATION_EVENT\<close>) lists the id of that notification exactly once.
\<close>

theorem setup_webhook_twice:
  assumes auth: "authorized b"
    and page: "length (stored_definitions b) \<le> 100"
    and dist: "distinct (map ed_id (stored_definitions b))"
    and scopes: "v4 \<or> (\<forall>ed\<in>set (stored_definitions b). ed_scope ed \<noteq> None)"
    and one: "length (filter (\<lambda>n. nb_title n = name) (stored_notifications b)) \<le> 1"
    and ids: "unused_ids b = i1 # i2 # ids" "i1 \<noteq> i2"
    and fresh: "\<forall>ed\<in>set (stored_definitions b).
                  i1 \<notin> set (ed_notifications ed) \<and> i2 \<notin> set (ed_notifications ed)"
    and name: "notification_name_of urlparse keep_api_url = Inr name"
  shows "\<exists>b1 b2.
           setup_webhook urlparse v4 uuid1 tenant_id keep_api_url api_key b = (Inr (), b1) \<and>
           setup_webhook urlparse v4 uuid2 tenant_id keep_api_url api_key b1 = (Inr (), b2) \<and>
           (\<exists>n. filter (\<lambda>n. nb_title n = name) (stored_notifications b2) = [n] \<and> n_id n = i2) \<and>
           (\<forall>ed\<in>set (stored_definitions b2).
              \<not> skipped v4 ed \<longrightarrow> count_list (ed_notifications ed) i2 = 1)"
proof -
  define url where "url = (if v4 then keep_api_url @ ''&api_key='' @ api_key else keep_api_url)"
  define ex0 where "ex0 = (case filter (\<lambda>n. nb_title n = name) (stored_notifications b) of
                     [] \<Rightarrow> None | n # _ \<Rightarrow> Some (n_id n))"
  define n1 where "n1 = notification_body.extend (notification_body_of v4 name url api_key) \<lparr> n_id = i1 \<rparr>"
  define n2 where "n2 = notification_body.extend (notification_body_of v4 name url api_key) \<lparr> n_id = i2 \<rparr>"
  have t: "nb_title n1 = name" "nb_title n2 = name" "n_id n1 = i1" "n_id n2 = i2"
    by (simp_all add: n1_def n2_def nb_title_extend n_id_extend notification_body_of_def)
  from setup_webhook_run [OF auth page dist scopes ids(1) name ex0_def url_def, of uuid1 tenant_id]
  obtain b1 where
    r1: "setup_webhook urlparse v4 uuid1 tenant_id keep_api_url api_key b = (Inr (), b1)"
    and b1: "authorized b1" "unused_ids b1 = i2 # ids"
      "stored_definitions b1 = map (rebound v4 ex0 i1) (stored_definitions b)"
      "stored_notifications b1 = filter (\<lambda>n. Some (n_id n) \<noteq> ex0) (stored_notifications b) @ [n1]"
    unfolding n1_def by blast
  have none: "filter (\<lambda>n. nb_title n = name)
      (filter (\<lambda>n. Some (n_id n) \<noteq> ex0) (stored_notifications b)) = []"
    by (rule no_titled_left [OF one ex0_def])
  have titled1: "filter (\<lambda>n. nb_title n = name) (stored_notifications b1) = [n1]"
    using none t by (simp add: b1(4))
  have ex1: "Some i1 = (case filter (\<lambda>n. nb_title n = name) (stored_notifications b1) of
                     [] \<Rightarrow> None | n # _ \<Rightarrow> Some (n_id n))"
    using titled1 t by simp
  have page1: "length (stored_definitions b1) \<le> 100" using page by (simp add: b1(3))
  have dist1: "distinct (map ed_id (stored_definitions b1))"
    using dist by (simp add: b1(3) comp_def rebound_keeps)
  have scopes1: "v4 \<or> (\<forall>ed\<in>set (stored_definitions b1). ed_scope ed \<noteq> None)"
    using scopes by (auto simp: b1(3) rebound_keeps)
  from setup_webhook_run [OF b1(1) page1 dist1 scopes1 b1(2) name ex1 url_def, of uuid2 tenant_id]
  obtain b2 where
    r2: "setup_webhook urlparse v4 uuid2 tenant_id keep_api_url api_key b1 = (Inr (), b2)"
    and b2: "stored_definitions b2 = map (rebound v4 (Some i1) i2) (stored_definitions b1)"
      "stored_notifications b2 = filter (\<lambda>n. Some (n_id n) \<noteq> Some i1) (stored_notifications b1) @ [n2]"
    unfolding n2_def by blast
  have "filter (\<lambda>n. nb_title n = name) (stored_notifications b2) =
      filter (\<lambda>n. Some (n_id n) \<noteq> Some i1) (filter (\<lambda>n. nb_title n = name) (stored_notifications b1)) @ [n2]"
    using t by (simp add: b2(2) conj_commute)
  then have titled2: "filter (\<lambda>n. nb_title n = name) (stored_notifications b2) = [n2]"
    using titled1 t by simp
  have counts: "\<forall>ed\<in>set (stored_definitions b2).
      \<not> skipped v4 ed \<longrightarrow> count_list (ed_notifications ed) i2 = 1"
  proof (intro ballI impI)
    fix ed assume "ed \<in> set (stored_definitions b2)" and ns: "\<not> skipped v4 ed"
    then obtain d where d: "d \<in> set (stored_definitions b)"
      and ed: "ed = rebound v4 (Some i1) i2 (rebound v4 ex0 i1 d)"
      by (auto simp: b2(1) b1(3))
    from ns ed have nd: "\<not> skipped v4 d" by (simp add: rebound_keeps)
    then have 1: "rebound v4 ex0 i1 d = rebind ex0 i1 d" by (simp add: rebound_def)
    have 2: "\<not> skipped v4 (rebind ex0 i1 d)" using nd by (simp add: skipped_def rebind_def)
    have ed': "ed = rebind (Some i1) i2 (rebind ex0 i1 d)"
      unfolding ed 1 using 2 by (simp add: rebound_def)
    have "i2 \<notin> set (ed_notifications d)" using fresh d by blast
    from count_after_two_rebinds [OF this ids(2), of ex0] show
      "count_list (ed_notifications ed) i2 = 1"
      unfolding ed' by simp
  qed
  from r1 r2 titled2 t(4) counts show ?thesis by blast
qed

lemma sample_url_name: "notification_name_of sample_urlparse sample_url = Inr ''Keep-abc''"
  by code_simp

theorem setup_webhook_twice_counterexample:
  "fst (setup_webhook sample_urlparse False ''u1'' ''tenant'' sample_url ''key'' (sample_backend two_definitions)) = Inr () \<and>
   fst (setup_webhook sample_urlparse False ''u2'' ''tenant'' sample_url ''key''
     (snd (setup_webhook sample_urlparse False ''u1'' ''tenant'' sample_url ''key'' (sample_backend two_definitions)))) = Inr () \<and>
   map n_id (filter (\<lambda>n. nb_title n = ''Keep-abc'') (stored_notifications
     (snd (setup_webhook sample_urlparse False ''u2'' ''tenant'' sample_url ''key''
       (snd (setup_webhook sample_urlparse False ''u1'' ''tenant'' sample_url ''key'' (sample_backend two_definitions))))))) =
     [''n2''] \<and>
   map (\<lambda>ed. (ed_id ed, count_list (ed_notifications ed) ''n2'')) (stored_definitions
     (snd (setup_webhook sample_urlparse False ''u2'' ''tenant'' sample_url ''key''
       (snd (setup_webhook sample_urlparse False ''u1'' ''tenant'' sample_url ''key'' (sample_backend two_definitions)))))) =
     [(''d1'', 1), (''d2'', 0)]"
  by code_simp

theorem setup_webhook_twice_witness:
  "\<exists>b1 b2.
     setup_webhook sample_urlparse False ''u1'' ''tenant'' sample_url ''key'' (sample_backend two_definitions) = (Inr (), b1) \<and>
     setup_webhook sample_urlparse False ''u2'' ''tenant'' sample_url ''key'' b1 = (Inr (), b2) \<and>
     (\<exists>n. filter (\<lambda>n. nb_title n = ''Keep-abc'') (stored_notifications b2) = [n] \<and> n_id n = ''n2'') \<and>
     (\<forall>ed\<in>set (stored_definitions b2).
        \<not> skipped False ed \<longrightarrow> count_list (ed_notifications ed) ''n2'' = 1)"
  by (rule setup_webhook_twice [where ids = "[''n3'']" and ?i1.0 = "''n1''"])
     (simp_all add: sample_backend_def two_definitions_def sample_definition_def sample_url_name)

theorem whitelist_upsert_witness:
  "stored_whitelist (snd (setup_webhook sample_urlparse False ''u1'' ''tenant'' sample_url ''key'' (sample_backend []))) =
     \<lparr> wl_entries = [\<lparr> we_id = ''u1'', we_title = ''Keep-abc'', we_value = sample_url,
                        we_type = ''literal'' \<rparr>], wl_disabled = False \<rparr> \<and>
   filter is_whitelist_write
     (received (snd (setup_webhook sample_urlparse False ''u1'' ''tenant'' sample_url ''key'' (sample_backend [])))) =
     [Put_system_urlwhitelist
        \<lparr> wl_entries = [\<lparr> we_id = ''u1'', we_title = ''Keep-abc'', we_value = sample_url,
                           we_type = ''literal'' \<rparr>], wl_disabled = False \<rparr>] \<and>
   stored_whitelist (snd (setup_webhook sample_urlparse False ''u2'' ''tenant'' sample_url ''key''
       ((sample_backend []) \<lparr> stored_whitelist :=
          \<lparr> wl_entries = [\<lparr> we_id = ''u1'', we_title = ''Keep-abc'', we_value = sample_url,
                             we_type = ''literal'' \<rparr>], wl_disabled = False \<rparr> \<rparr>))) =
     \<lparr> wl_entries = [\<lparr> we_id = ''u1'', we_title = ''Keep-abc'', we_value = sample_url,
                        we_type = ''literal'' \<rparr>], wl_disabled = False \<rparr> \<and>
   filter is_whitelist_write
     (received (snd (setup_webhook sample_urlparse False ''u2'' ''tenant'' sample_url ''key''
       ((sample_backend []) \<lparr> stored_whitelist :=
          \<lparr> wl_entries = [\<lparr> we_id = ''u1'', we_title = ''Keep-abc'', we_value = sample_url,
                             we_type = ''literal'' \<rparr>], wl_disabled = False \<rparr> \<rparr>)))) = []"
proof -
  have a: "authorized (sample_backend [])"
    "authorized ((sample_backend []) \<lparr> stored_whitelist :=
          \<lparr> wl_entries = [\<lparr> we_id = ''u1'', we_title = ''Keep-abc'', we_value = sample_url,
                             we_type = ''literal'' \<rparr>], wl_disabled = False \<rparr> \<rparr>)"
    by (simp_all add: sample_backend_def)
  from whitelist_upsert [where b = "sample_backend []" and ?v4.0 = False and uuid = "''u1''"
           and tenant_id = "''tenant''" and api_key = "''key''" and keep_api_url = sample_url
           and name = "''Keep-abc''", OF a(1) sample_url_name refl refl refl]
       whitelist_upsert [where b = "(sample_backend []) \<lparr> stored_whitelist :=
             \<lparr> wl_entries = [\<lparr> we_id = ''u1'', we_title = ''Keep-abc'', we_value = sample_url,
                                we_type = ''literal'' \<rparr>], wl_disabled = False \<rparr> \<rparr>"
           and ?v4.0 = False and uuid = "''u2''"
           and tenant_id = "''tenant''" and api_key = "''key''" and keep_api_url = sample_url
           and name = "''Keep-abc''", OF a(2) sample_url_name refl refl refl]
  show ?thesis
    by (simp add: sample_backend_def)
qed

lemma same_creates_refl: "same_creates b b"
  by (simp add: same_creates_def)

lemma same_creates_trans: "same_creates a b \<Longrightarrow> same_creates b c \<Longrightarrow> same_creates a c"
  by (simp add: same_creates_def)

lemma answer_same_creates:
  assumes "\<not> is_create req" and "\<And>b. received (snd (serve b)) = received b"
  shows "same_creates b (snd (answer req serve nb b))"
  using assms(1) assms(2) [of "b \<lparr> received := received b @ [req] \<rparr>"]
  by (simp add: answer_def same_creates_def Let_def)

lemma same_creates_update: "frame same_creates (priv_update_event ed)"
  unfolding priv_update_event_def put_events_definitions_def
  by (intro frame_expect answer_same_creates; simp add: is_create_def)

lemma no_create_in_gets:
  "filter is_create (map (\<lambda>p. Get_events_definitions p n) ps) = []"
  by (induction ps) (simp_all add: is_create_def)

lemma snd_then_do_pure:
  assumes "\<And>v s'. snd (k v s') = s'"
  shows "snd (then_do m k s) = snd (m s)"
  using assms by (cases "m s") (auto simp: then_do_def split: sum.splits)

lemma priv_create_notification_received:
  "received (snd (priv_create_notification name body b)) =
     received b @ [Post_events_notifications body]"
  by (simp add: priv_create_notification_def post_events_notifications_def expect_def answer_def
      Let_def split: list.splits)

lemma create_then_id_received:
  "received (snd (then_do (priv_create_notification name body) (\<lambda>new_notification.
       then_do (lift (subscript ''id'' (map_option n_id new_notification))) (\<lambda>new_id.
         ret (ex, new_id))) b)) =
     received b @ [Post_events_notifications body]"
proof -
  have "snd (then_do (priv_create_notification name body) (\<lambda>new_notification.
       then_do (lift (subscript ''id'' (map_option n_id new_notification))) (\<lambda>new_id.
         ret (ex, new_id))) b) = snd (priv_create_notification name body b)"
    by (rule snd_then_do_pure)
       (simp add: then_do_def lift_def ret_def subscript_def split: option.splits)
  then show ?thesis by (simp add: priv_create_notification_received)
qed

lemma replace_notification_creates:
  assumes "authorized b"
  shows "filter is_create (received (snd (replace_notification v4 name url key b))) =
         filter is_create (received b) @
           [Post_events_notifications (notification_body_of v4 name url key)]"
proof (cases "filter (\<lambda>n. nb_title n = name) (stored_notifications b)")
  case Nil
  have "replace_notification v4 name url key b =
      then_do (priv_create_notification name (notification_body_of v4 name url key)) (\<lambda>new_notification.
       then_do (lift (subscript ''id'' (map_option n_id new_notification))) (\<lambda>new_id.
         ret (None, new_id)))
        (b \<lparr> received := received b @ [Get_events_notifications 1 1 (''title:'' @ name)] \<rparr>)"
    using assms Nil
    by (simp add: replace_notification_def then_do_def priv_get_notification_ok page_of_def ret_def)
  then show ?thesis
    by (simp add: create_then_id_received is_create_def)
next
  case (Cons n ns)
  have "n \<in> set (filter (\<lambda>n. nb_title n = name) (stored_notifications b))"
    using Cons by simp
  then have mem: "n_id n \<in> set (map n_id (stored_notifications b))" by auto
  have "replace_notification v4 name url key b =
      then_do (priv_create_notification name (notification_body_of v4 name url key)) (\<lambda>new_notification.
       then_do (lift (subscript ''id'' (map_option n_id new_notification))) (\<lambda>new_id.
         ret (Some (n_id n), new_id)))
        (b \<lparr> received := received b @ [Get_events_notifications 1 1 (''title:'' @ name),
                                          Delete_events_notifications (n_id n)],
             stored_notifications := filter (\<lambda>m. n_id m \<noteq> n_id n) (stored_notifications b) \<rparr>)"
    using assms Cons mem
    by (simp add: replace_notification_def then_do_def priv_get_notification_ok page_of_def ret_def
        priv_delete_notification_ok lift_def list_index_def)
  then show ?thesis
    by (simp add: create_then_id_received is_create_def)
qed

lemma setup_webhook_creates:
  assumes "authorized b" "notification_name_of urlparse keep_api_url = Inr name"
    and "url = (if v4 then keep_api_url @ ''&api_key='' @ api_key else keep_api_url)"
  shows "filter is_create
           (received (snd (setup_webhook urlparse v4 uuid tenant_id keep_api_url api_key b))) =
         filter is_create (received b) @
           [Post_events_notifications (notification_body_of v4 name url api_key)]"
proof -
  define b1 where "b1 = snd (collect_event_definitions b)"
  obtain eds where c: "collect_event_definitions b = (Inr eds, b1)"
    unfolding b1_def using collect_event_definitions_ok [OF assms(1)] by simp
  have b1: "authorized b1" "filter is_create (received b1) = filter is_create (received b)"
    unfolding b1_def using collect_event_definitions_ok [OF assms(1)] assms(1)
      no_create_in_gets [of 100 "1 # [2 .. ceil_div (int (length (stored_definitions b))) 100 - 1]"]
    by simp_all
  define b2 where "b2 = snd (whitelist_url uuid name url b1)"
  have w: "whitelist_url uuid name url b1 = (Inr (), b2)"
    unfolding b2_def using whitelist_url_ok [OF b1(1)] by simp
  have b2: "authorized b2" "filter is_create (received b2) = filter is_create (received b)"
    unfolding b2_def using whitelist_url_ok [OF b1(1), of uuid name url] b1
    by (simp_all add: is_create_def)
  obtain r b3 where rn: "replace_notification v4 name url api_key b2 = (r, b3)"
    by (cases "replace_notification v4 name url api_key b2")
  have b3: "filter is_create (received b3) =
      filter is_create (received b) @
        [Post_events_notifications (notification_body_of v4 name url api_key)]"
    using replace_notification_creates [OF b2(1), of v4 name url api_key] rn b2(2) by simp
  define rest where "rest = then_do (replace_notification v4 name url api_key)
      (\<lambda>(existing, new_id). update_events v4 existing new_id eds)"
  have run: "snd (setup_webhook urlparse v4 uuid tenant_id keep_api_url api_key b) = snd (rest b2)"
    unfolding setup_webhook_def assms(2) then_do_lift_Inr Let_def rest_def
    using c w assms(3) by (simp add: then_do_def)
  have "filter is_create (received (snd (rest b2))) = filter is_create (received b3)"
  proof (cases r)
    case (Inl e)
    then show ?thesis by (simp add: rest_def then_do_def rn)
  next
    case (Inr v)
    have "frame same_creates (update_events v4 (fst v) (snd v) eds)"
      by (rule frame_update_events [OF same_creates_refl same_creates_trans])
         (simp_all add: same_creates_update)
    then have "same_creates b3 (snd (update_events v4 (fst v) (snd v) eds b3))"
      by (simp add: frame_def)
    then show ?thesis
      using Inr by (simp add: rest_def then_do_def rn split_beta same_creates_def)
  qed
  with run b3 show ?thesis by simp
qed

subsection \<open>The title of the notification\<close>

text \<open>
  C10. \<^verbatim>\<open>setup_webhook\<close> parses the callback URL with \<^verbatim>\<open>urlparse\<close> and names the
  notification \<^verbatim>\<open>Keep-\<close> followed by the last piece of the query string split at
  \<^verbatim>\<open>provider_id=\<close>: what follows the last occurrence of \<^verbatim>\<open>provider_id=\<close>, with any
  \<^verbatim>\<open>&key=value\<close> text that comes after the identifier, and the whole query string when
  \<^verbatim>\<open>provider_id=\<close> does not occur in it. When \<^verbatim>\<open>urlparse\<close> raises, the call raises the
  same exception and sends nothing. Against a backend that accepts the token, the call
  issues exactly one request to create a notification, and that notification carries the
  derived title.
\<close>

theorem notification_name_after_last_provider_id:
  "(urlparse url = Inr parsed \<and> pr_query parsed = lead @ ''provider_id='' @ rest \<and>
      \<not> sublist ''provider_id='' rest \<longrightarrow>
      notification_name_of urlparse url = Inr (''Keep-'' @ rest)) \<and>
   (urlparse url = Inr parsed \<and> \<not> sublist ''provider_id='' (pr_query parsed) \<longrightarrow>
      notification_name_of urlparse url = Inr (''Keep-'' @ pr_query parsed)) \<and>
   (urlparse url = Inl e \<longrightarrow>
      setup_webhook urlparse v4 uuid tenant_id url api_key backend = (Inl e, backend)) \<and>
   (authorized backend \<and> notification_name_of urlparse url = Inr name \<longrightarrow>
      (\<exists>body. nb_title body = name \<and>
         filter is_create
           (received (snd (setup_webhook urlparse v4 uuid tenant_id url api_key backend))) =
         filter is_create (received backend) @ [Post_events_notifications body]))"
proof (intro conjI impI)
  assume h: "urlparse url = Inr parsed \<and> pr_query parsed = lead @ ''provider_id='' @ rest \<and>
      \<not> sublist ''provider_id='' rest"
  then have "last (split_acc ''provider_id='' [] (pr_query parsed)) = rest"
    using split_acc_last [OF borderless_provider_id, of "pr_query parsed" lead rest "[]"] by simp
  then show "notification_name_of urlparse url = Inr (''Keep-'' @ rest)"
    using h split_acc_nonempty [of "''provider_id=''" "[]" "pr_query parsed"]
    by (simp add: notification_name_of_def py_split_def and_then_simps list_index_last)
next
  assume "urlparse url = Inr parsed \<and> \<not> sublist ''provider_id='' (pr_query parsed)"
  then show "notification_name_of urlparse url = Inr (''Keep-'' @ pr_query parsed)"
    by (simp add: notification_name_of_def py_split_def and_then_simps split_acc_no_occurrence
        list_index_def)
next
  assume "urlparse url = Inl e"
  then show "setup_webhook urlparse v4 uuid tenant_id url api_key backend = (Inl e, backend)"
    by (simp add: setup_webhook_def notification_name_of_def and_then_simps then_do_def lift_def)
next
  assume h: "authorized backend \<and> notification_name_of urlparse url = Inr name"
  have "nb_title (notification_body_of v4 name
      (if v4 then url @ ''&api_key='' @ api_key else url) api_key) = name"
    by (simp add: notification_body_of_def)
  with setup_webhook_creates [of backend urlparse url name _ v4 api_key uuid tenant_id, OF _ _ refl] h
  show "\<exists>body. nb_title body = name \<and>
         filter is_create
           (received (snd (setup_webhook urlparse v4 uuid tenant_id url api_key backend))) =
         filter is_create (received backend) @ [Post_events_notifications body]"
    by blast
qed

lemma sample_urlparse_simps:
  "sample_urlparse ''https://keep.example/alerts/event/graylog?provider_id=abc123&env=prod'' =
     Inr \<lparr> pr_scheme = ''https'', pr_netloc = ''keep.example'', pr_path = ''/alerts/event/graylog'',
           pr_params = [], pr_query = ''provider_id=abc123&env=prod'', pr_fragment = [] \<rparr>"
  "sample_urlparse ''https://keep.example/alerts/event/graylog?provider_id=a&next=provider_id=b'' =
     Inr \<lparr> pr_scheme = ''https'', pr_netloc = ''keep.example'', pr_path = ''/alerts/event/graylog'',
           pr_params = [], pr_query = ''provider_id=a&next=provider_id=b'', pr_fragment = [] \<rparr>"
  "sample_urlparse ''https://keep.example/alerts/event/graylog?tenant=acme'' =
     Inr \<lparr> pr_scheme = ''https'', pr_netloc = ''keep.example'', pr_path = ''/alerts/event/graylog'',
           pr_params = [], pr_query = ''tenant=acme'', pr_fragment = [] \<rparr>"
  "sample_urlparse ''http://[bad/x]?provider_id=abc'' = Inl ValueError"
  by (simp_all add: sample_urlparse_def sample_queries_def)

theorem notification_name_after_last_provider_id_witness:
  "notification_name_of sample_urlparse
      ''https://keep.example/alerts/event/graylog?provider_id=abc123&env=prod'' =
     Inr ''Keep-abc123&env=prod'' \<and>
   notification_name_of sample_urlparse
      ''https://keep.example/alerts/event/graylog?provider_id=a&next=provider_id=b'' =
     Inr ''Keep-b'' \<and>
   notification_name_of sample_urlparse ''https://keep.example/alerts/event/graylog?tenant=acme'' =
     Inr ''Keep-tenant=acme'' \<and>
   setup_webhook sample_urlparse False ''u1'' ''tenant'' ''http://[bad/x]?provider_id=abc'' ''key''
       (sample_backend []) = (Inl ValueError, sample_backend []) \<and>
   (\<exists>body. nb_title body = ''Keep-abc123&env=prod'' \<and>
      filter is_create (received (snd (setup_webhook sample_urlparse False ''u1'' ''tenant''
        ''https://keep.example/alerts/event/graylog?provider_id=abc123&env=prod'' ''key''
        (sample_backend [])))) = [Post_events_notifications body])"
proof -
  have 1: "\<not> sublist ''provider_id='' ''abc123&env=prod''"
    by (simp add: sublist_Cons_right)
  have 2: "\<not> sublist ''provider_id='' ''b''"
    by (simp add: sublist_Cons_right)
  have 3: "\<not> sublist ''provider_id='' ''tenant=acme''"
    by (simp add: sublist_Cons_right)
  have a: "notification_name_of sample_urlparse
      ''https://keep.example/alerts/event/graylog?provider_id=abc123&env=prod'' =
     Inr ''Keep-abc123&env=prod''"
    using notification_name_after_last_provider_id
         [where urlparse = sample_urlparse
            and url = "''https://keep.example/alerts/event/graylog?provider_id=abc123&env=prod''"
            and lead = "[]" and rest = "''abc123&env=prod''"
            and parsed = "\<lparr> pr_scheme = ''https'', pr_netloc = ''keep.example'',
                pr_path = ''/alerts/event/graylog'', pr_params = [], pr_query = ''provider_id=abc123&env=prod'',
                pr_fragment = [] \<rparr>"]
      sample_urlparse_simps(1) 1
    by simp
  have b: "notification_name_of sample_urlparse
      ''https://keep.example/alerts/event/graylog?provider_id=a&next=provider_id=b'' = Inr ''Keep-b''"
    using notification_name_after_last_provider_id
         [where urlparse = sample_urlparse
            and url = "''https://keep.example/alerts/event/graylog?provider_id=a&next=provider_id=b''"
            and lead = "''provider_id=a&next=''" and rest = "''b''"
            and parsed = "\<lparr> pr_scheme = ''https'', pr_netloc = ''keep.example'',
                pr_path = ''/alerts/event/graylog'', pr_params = [], pr_query = ''provider_id=a&next=provider_id=b'',
                pr_fragment = [] \<rparr>"]
      sample_urlparse_simps(2) 2
    by simp
  have c: "notification_name_of sample_urlparse ''https://keep.example/alerts/event/graylog?tenant=acme'' =
     Inr ''Keep-tenant=acme''"
    using notification_name_after_last_provider_id
         [where urlparse = sample_urlparse
            and url = "''https://keep.example/alerts/event/graylog?tenant=acme''"
            and parsed = "\<lparr> pr_scheme = ''https'', pr_netloc = ''keep.example'',
                pr_path = ''/alerts/event/graylog'', pr_params = [], pr_query = ''tenant=acme'',
                pr_fragment = [] \<rparr>"]
      sample_urlparse_simps(3) 3
    by simp
  have d: "setup_webhook sample_urlparse False ''u1'' ''tenant'' ''http://[bad/x]?provider_id=abc'' ''key''
       (sample_backend []) = (Inl ValueError, sample_backend [])"
    using notification_name_after_last_provider_id
         [where urlparse = sample_urlparse and url = "''http://[bad/x]?provider_id=abc''"
            and e = ValueError]
      sample_urlparse_simps(4)
    by simp
  have e: "\<exists>body. nb_title body = ''Keep-abc123&env=prod'' \<and>
      filter is_create (received (snd (setup_webhook sample_urlparse False ''u1'' ''tenant''
        ''https://keep.example/alerts/event/graylog?provider_id=abc123&env=prod'' ''key''
        (sample_backend [])))) = [Post_events_notifications body]"
    using notification_name_after_last_provider_id
         [where urlparse = sample_urlparse
            and url = "''https://keep.example/alerts/event/graylog?provider_id=abc123&env=prod''"
            and backend = "sample_backend []" and name = "''Keep-abc123&env=prod''"
            and ?v4.0 = False and uuid = "''u1''" and tenant_id = "''tenant''" and api_key = "''key''"]
      a
    by (simp add: sample_backend_def)
  from a b c d e show ?thesis by (intro conjI)
qed

subsection \<open>Further properties\<close>

text \<open>
  The offset of the log search is \<^verbatim>\<open>page * per_page\<close>, or 0 when that product is negative;
  \<^verbatim>\<open>search\<close> issues exactly one request, which carries this offset, the page size as its
  limit and the query string.
\<close>

theorem search_offset_clamped:
  "\<exists>body. snd (search post query_id search_type_id query query_type timerange_seconds
                  timerange_type page per_page log) = log @ [Post_views_search_sync body] \<and>
          sb_offset body = max 0 (page * per_page) \<and> 0 \<le> sb_offset body \<and>
          sb_limit body = per_page \<and> sb_query_string body = query"
proof -
  define body where "body = \<lparr> sb_query_id = query_id, sb_query_type = query_type,
      sb_query_string = query, sb_timerange_from = timerange_seconds,
      sb_timerange_type = timerange_type, sb_search_type_id = search_type_id,
      sb_limit = per_page, sb_offset = (if page * per_page < 0 then 0 else page * per_page) \<rparr>"
  have "snd (search post query_id search_type_id query query_type timerange_seconds
                  timerange_type page per_page log) = log @ [Post_views_search_sync body]"
    unfolding search_def Let_def body_def [symmetric]
    by (cases "post body")
       (auto simp: then_do_def lift_def ret_def subscript_def
          split: option.splits list.splits sum.splits)
  moreover have "sb_offset body = max 0 (page * per_page)" "0 \<le> sb_offset body"
    "sb_limit body = per_page" "sb_query_string body = query"
    by (simp_all add: body_def)
  ultimately show ?thesis by blast
qed

text \<open>
  The name of the alert defaults to the message of the event, and the default is
  evaluated before \<^verbatim>\<open>event.get\<close> is called: an event without the key \<^verbatim>\<open>message\<close> is a
  \<^verbatim>\<open>KeyError\<close> even when it has a title.
\<close>

theorem map_event_needs_message:
  assumes "event ev = Some body" "e_id body = Some i" "e_message body = None"
  shows "priv_map_event_to_alert fromisoformat H ev = Inl (KeyError ''message'')"
  using assms
  by (simp add: priv_map_event_to_alert_def and_then_simps subscript_simps)

theorem map_event_needs_message_witness:
  "priv_map_event_to_alert sample_fromisoformat sample_hash
     \<lparr> event = Some \<lparr> e_id = Some ''e1'', e_message = None, e_priority = Some 1,
                      e_event_definition_id = Some ''def-1'', e_origin_context = None,
                      e_timestamp = Some ''2024-12-23T18:49:00'' \<rparr>,
       event_definition_title = Some ''a title'', event_definition_description = None \<rparr> =
     Inl (KeyError ''message'')"
  using map_event_needs_message [where fromisoformat = sample_fromisoformat and H = sample_hash and i = "''e1''"
      and ev = "\<lparr> event = Some \<lparr> e_id = Some ''e1'', e_message = None, e_priority = Some 1,
                      e_event_definition_id = Some ''def-1'', e_origin_context = None,
                      e_timestamp = Some ''2024-12-23T18:49:00'' \<rparr>,
       event_definition_title = Some ''a title'', event_definition_description = None \<rparr>"]
  by simp

text \<open>
  A backend that does not accept the token answers the first request of
  \<^verbatim>\<open>setup_webhook\<close> with 401: once the title is derived, the call raises with the text
  of that response, after this one request, and nothing stored in the backend has changed.
\<close>

theorem setup_webhook_unauthorized:
  assumes "\<not> authorized b" and n: "notification_name_of urlparse keep_api_url = Inr name"
  shows "setup_webhook urlparse v4 uuid tenant_id keep_api_url api_key b =
     (Inl (HttpFailure ''Unauthorized''),
      b \<lparr> received := received b @ [Get_events_definitions 1 100] \<rparr>)"
proof -
  have "priv_get_events 1 100 b =
      (Inl (HttpFailure ''Unauthorized''), b \<lparr> received := received b @ [Get_events_definitions 1 100] \<rparr>)"
    using assms(1)
    by (simp add: priv_get_events_def get_events_definitions_def expect_answer_unauthorized)
  then show ?thesis
    unfolding setup_webhook_def n then_do_lift_Inr Let_def collect_event_definitions_def
    by (simp add: then_do_def)
qed

theorem setup_webhook_unauthorized_witness:
  "setup_webhook sample_urlparse False ''u1'' ''tenant'' sample_url ''key'' locked_backend =
     (Inl (HttpFailure ''Unauthorized''),
      locked_backend \<lparr> received := [Get_events_definitions 1 100] \<rparr>)"
  using setup_webhook_unauthorized [where b = locked_backend and ?v4.0 = False and uuid = "''u1''"
      and tenant_id = "''tenant''" and keep_api_url = sample_url and api_key = "''key''"
      and urlparse = sample_urlparse and name = "''Keep-abc''"] sample_url_name
  by (simp add: locked_backend_def sample_backend_def)

text \<open>
  With no query in \<^verbatim>\<open>kwargs\<close> and a non-empty one in the parameter mapping, \<^verbatim>\<open>_query\<close> is
  the log search for that query; each other argument is taken from \<^verbatim>\<open>kwargs\<close>, else from
  the parameter mapping, else it is the default (\<^verbatim>\<open>elastic\<close>, 300, \<^verbatim>\<open>relative\<close>, 0, 150).
\<close>

theorem query_nonempty_goes_to_search:
  assumes "sp_query kwargs = None" "sp_query events_search_parameters = Some q" "q \<noteq> []"
  shows "prot_query fromisoformat H post_sync post_events query_id search_type_id
           events_search_parameters kwargs log =
         then_do (search post_sync query_id search_type_id q
               (get_or (sp_query_type kwargs)
                  (get_or (sp_query_type events_search_parameters) ''elastic''))
               (get_or (sp_timerange_seconds kwargs)
                  (get_or (sp_timerange_seconds events_search_parameters) 300))
               (get_or (sp_timerange_type kwargs)
                  (get_or (sp_timerange_type events_search_parameters) ''relative''))
               (get_or (sp_page kwargs) (get_or (sp_page events_search_parameters) 0))
               (get_or (sp_per_page kwargs) (get_or (sp_per_page events_search_parameters) 150)))
             (\<lambda>messages. ret (Messages messages)) log"
  using assms by (simp add: prot_query_def py_or_def truthy_def get_or_def)

theorem query_nonempty_goes_to_search_witness:
  "prot_query sample_fromisoformat sample_hash (\<lambda>_. Raised ''down'') two_events_backend ''q'' ''s''
       (alerts_json_data \<lparr> sp_query := Some ''error'' \<rparr>) no_kwargs [] =
     then_do (search (\<lambda>_. Raised ''down'') ''q'' ''s'' ''error'' ''elastic'' 300 ''relative'' 1 1000)
       (\<lambda>messages. ret (Messages messages)) []"
  using query_nonempty_goes_to_search [where kwargs = no_kwargs
      and events_search_parameters = "alerts_json_data \<lparr> sp_query := Some ''error'' \<rparr>"
      and q = "''error''" and fromisoformat = sample_fromisoformat and H = sample_hash
      and post_sync = "\<lambda>_. Raised ''down''" and post_events = two_events_backend
      and query_id = "''q''" and search_type_id = "''s''" and log = "[]"]
  by (simp add: no_kwargs_def alerts_json_data_def get_or_def)

end
